theory Spec2Isabelle
  imports Main
begin

section \<open>Library catalogue: the inventory and sync core of script.js\<close>

text \<open>
  The class \<open>LibrarySystem\<close> of \<open>src/script.js\<close> keeps a catalogue of books and a
  ledger of loans, imports rows from CSV and spreadsheet files, and pushes and pulls both
  collections to a remote endpoint. The model below is a shallow embedding: every method
  is a function from the state before to the state after; a method that shows an error
  toast and returns early yields \<open>Inl\<close> of that error; the clock, the form fields, the
  answer to a confirm dialog and the HTTP response are arguments.

  JavaScript numbers are modelled as \<open>int\<close> (the counts involved are small integers), and
  strings as \<open>string\<close>: the alphabet of the model is the characters below 256.
\<close>

subsection \<open>Strings\<close>

text \<open>
  \<open>String.prototype.trim\<close>: the white space and line terminators below 256 are the
  space, tab, line feed, vertical tab, form feed, carriage return and no-break space.
\<close>

definition is_space :: "char \<Rightarrow> bool" where
  "is_space c =
     (c \<in> set [CHR '' '', CHR 0x09, CHR 0x0A, CHR 0x0B, CHR 0x0C, CHR 0x0D, CHR 0xA0])"

definition trim :: "string \<Rightarrow> string" where
  "trim s = rev (dropWhile is_space (rev (dropWhile is_space s)))"

definition is_digit :: "char \<Rightarrow> bool" where
  "is_digit c = (c \<in> set ''0123456789'')"

text \<open>
  The regular expression \<open>/^[ABC]\d+$/\<close>, tested on the code at every entry point
  (\<open>processCSVData\<close>, \<open>handleAddBook\<close>, \<open>processImportData\<close>): one of the capital letters
  A, B, C, then one or more decimal digits, and nothing else. The expression carries no
  \<open>i\<close> flag.
\<close>

fun valid_code :: "string \<Rightarrow> bool" where
  "valid_code [] = False"
| "valid_code (c # ds) = (c \<in> set ''ABC'' \<and> ds \<noteq> [] \<and> list_all is_digit ds)"

text \<open>\<open>toUpperCase\<close> on one character: the ASCII letters a to z move to A to Z.\<close>

definition toUpperCase :: "char \<Rightarrow> char" where
  "toUpperCase c =
     (let n = (of_char c :: nat) in if 97 \<le> n \<and> n \<le> 122 then char_of (n - 32) else c)"

text \<open>
  The four genre strings of \<open>getGenreFromId\<close>: picture book for A, bridge book for B,
  text book for C, and the string for "unknown" otherwise.
\<close>

datatype genre = PictureBook | BridgeBook | TextBook | UnknownGenre

definition getGenreFromId :: "string \<Rightarrow> genre" where
  "getGenreFromId i =
     (case i of
        [] \<Rightarrow> UnknownGenre
      | c # _ \<Rightarrow>
          (let firstChar = toUpperCase c in
           if firstChar = CHR ''A'' then PictureBook
           else if firstChar = CHR ''B'' then BridgeBook
           else if firstChar = CHR ''C'' then TextBook
           else UnknownGenre))"

subsection \<open>parseInt\<close>

text \<open>
  The ECMAScript builtin \<open>parseInt\<close> with no radix argument, as the form handlers and the
  spreadsheet import call it: leading white space is skipped, a sign is read, a prefix
  \<open>0x\<close> or \<open>0X\<close> selects radix 16, and the longest run of digits is the value. No digit
  at all gives \<open>NaN\<close>, here \<open>None\<close>.
\<close>

definition dec_val :: "char \<Rightarrow> nat option" where
  "dec_val c = (if is_digit c then Some (of_char c - 48) else None)"

definition hex_val :: "char \<Rightarrow> nat option" where
  "hex_val c =
     (if is_digit c then Some (of_char c - 48)
      else if c \<in> set ''abcdef'' then Some (of_char c - 87)
      else if c \<in> set ''ABCDEF'' then Some (of_char c - 55)
      else None)"

fun take_digits :: "(char \<Rightarrow> nat option) \<Rightarrow> string \<Rightarrow> nat list" where
  "take_digits v [] = []"
| "take_digits v (c # cs) = (case v c of None \<Rightarrow> [] | Some d \<Rightarrow> d # take_digits v cs)"

definition radix_value :: "nat \<Rightarrow> nat list \<Rightarrow> nat" where
  "radix_value r ds = foldl (\<lambda>a d. a * r + d) 0 ds"

definition parseInt :: "string \<Rightarrow> int option" where
  "parseInt s =
     (let s1 = dropWhile is_space s;
          neg = (take 1 s1 = ''-'');
          s2 = (if take 1 s1 = ''-'' \<or> take 1 s1 = ''+'' then drop 1 s1 else s1);
          hex = (take 2 s2 = ''0x'' \<or> take 2 s2 = ''0X'');
          ds = (if hex then take_digits hex_val (drop 2 s2) else take_digits dec_val s2);
          n = int (radix_value (if hex then 16 else 10) ds)
      in if ds = [] then None else Some (if neg then - n else n))"

text \<open>\<open>parseInt(x) || d\<close>: \<open>NaN\<close> and \<open>0\<close> are falsy, so both give the default.\<close>

definition or_default :: "int option \<Rightarrow> int \<Rightarrow> int" where
  "or_default v d = (case v of None \<Rightarrow> d | Some n \<Rightarrow> if n = 0 then d else n)"

subsection \<open>Data model\<close>

text \<open>
  A book record. \<open>bookIds\<close> is present on records built by \<open>processCSVData\<close> and absent
  (\<open>None\<close>) on those built by \<open>handleAddBook\<close> and \<open>processImportData\<close>.
\<close>

record book =
  book_id :: string
  bookIds :: "string list option"
  title :: string
  genre :: genre
  year :: int
  copies :: int
  availableCopies :: int

text \<open>
  A loan record. Its id is \<open>Date.now().toString()\<close>; the model keeps the clock reading
  itself, in milliseconds, since the decimal rendering is one-to-one. Dates are kept as
  milliseconds too; \<open>returnedAt\<close> is \<open>null\<close> (\<open>None\<close>) until the book is returned.
\<close>

record loan =
  loan_id :: int
  bookId :: string
  bookTitle :: string
  userId :: string
  borrowDate :: int
  dueDate :: int
  returnedAt :: "int option"

record user =
  username :: string
  role :: string

record settings =
  loanDays :: int
  guestBorrow :: bool
  defaultCopies :: int
  defaultYear :: int
  autoUpdateInterval :: int
  googleWebAppUrl :: string

text \<open>A request the page has sent to the remote endpoint.\<close>

datatype request = PushRequest "book list" "loan list" string | PullRequest

text \<open>
  The fields of \<open>LibrarySystem\<close> that the core reads and writes, and the part of the
  browser it acts on: the pending \<open>setTimeout\<close> callbacks of \<open>scheduleAutoSync\<close> (handle
  and due time), the next timer handle, the requests sent so far, and the local-storage
  entry \<open>lib_boyou_books_v1\<close> (as JSON text). \<open>saveData\<close> copies the fields to local
  storage and changes none of them, so it does not appear.
\<close>

record state =
  books :: "book list"
  borrowedBooks :: "loan list"
  currentUser :: "user option"
  settings :: settings
  autoSyncTimer :: "nat option"
  autoSyncLastRunAt :: int
  autoSyncCooldownUntil :: int
  timeouts :: "(nat \<times> int) list"
  nextHandle :: nat
  sent :: "request list"
  boyouBooks :: string

definition adminUsername :: string where
  "adminUsername = ''sindy16872000''"

definition autoSyncMinIntervalMs :: int where
  "autoSyncMinIntervalMs = 30000"

definition autoSyncDebounceMs :: int where
  "autoSyncDebounceMs = 1500"

text \<open>
  The settings the constructor assigns, and the state a constructed \<open>LibrarySystem\<close> is
  in when local storage is empty: the fields as the constructor initialises them, after
  \<open>loadData\<close> has found nothing stored and has put \<open>defaultGoogleWebAppUrl\<close> in place of
  the blank sync URL.
\<close>

definition defaultGoogleWebAppUrl :: string where
  "defaultGoogleWebAppUrl =
     ''https://script.google.com/macros/s/AKfycbxYZodHltoNvStyYHg3iHwflZ2W6g3vPNKftIOo3e8A22-jNL_-j_GmBbxzZwLt9Ot_/exec''"

definition initial_settings :: settings where
  "initial_settings =
     \<lparr>loanDays = 14, guestBorrow = False, defaultCopies = 1, defaultYear = 2024,
      autoUpdateInterval = 300000, googleWebAppUrl = []\<rparr>"

definition initial_state :: state where
  "initial_state =
     \<lparr>books = [], borrowedBooks = [], currentUser = None,
      settings = initial_settings\<lparr>googleWebAppUrl := defaultGoogleWebAppUrl\<rparr>,
      autoSyncTimer = None, autoSyncLastRunAt = 0, autoSyncCooldownUntil = 0,
      timeouts = [], nextHandle = 1, sent = [], boyouBooks = ''{}''\<rparr>"

text \<open>The error toasts, one constructor per message.\<close>

datatype error =
    NotLoggedIn | GuestCannotBorrow | BookNotFound | NoCopiesAvailable | AlreadyBorrowed
  | LoanNotFound | AlreadyReturned | BadCodeFormat | DuplicateCode | MissingTitle
  | MissingCode | AdminOnly | CopiesBelowBorrowed nat | HasOpenLoans | Cancelled
  | EmptyUsername

text \<open>
  \<open>xs.find(P)\<close> followed by a mutation of the object found: the first element that
  satisfies \<open>P\<close> is changed in place.
\<close>

fun update_first :: "('a \<Rightarrow> bool) \<Rightarrow> ('a \<Rightarrow> 'a) \<Rightarrow> 'a list \<Rightarrow> 'a list" where
  "update_first P f [] = []"
| "update_first P f (x # xs) = (if P x then f x # xs else x # update_first P f xs)"

text \<open>
  The number of open loans of a code, as \<open>handleEditBook\<close> and \<open>deleteBook\<close> compute it:
  \<open>borrowedBooks.filter(b => b.bookId === code && !b.returnedAt).length\<close>.
\<close>

definition borrowedCount :: "loan list \<Rightarrow> string \<Rightarrow> nat" where
  "borrowedCount ls code = length (filter (\<lambda>b. bookId b = code \<and> returnedAt b = None) ls)"

subsection \<open>Session\<close>

definition isAdminUser :: "state \<Rightarrow> bool" where
  "isAdminUser s = (case currentUser s of None \<Rightarrow> False | Some u \<Rightarrow> username u = adminUsername)"

definition handleLogin :: "string \<Rightarrow> string \<Rightarrow> state \<Rightarrow> error + state" where
  "handleLogin name r s =
     (if trim name = [] then Inl EmptyUsername
      else Inr (s\<lparr>currentUser := Some \<lparr>username = name, role = r\<rparr>\<rparr>))"

definition logout :: "state \<Rightarrow> state" where
  "logout s = s\<lparr>currentUser := None\<rparr>"

subsection \<open>Debounced push scheduling\<close>

text \<open>
  \<open>clearTimeout\<close> drops the pending callback with that handle (none, if it has fired
  already); \<open>setTimeout\<close> queues a callback under a fresh handle. Handles are positive,
  so the source's test \<open>if (this.autoSyncTimer)\<close> is a test for \<open>null\<close>.
\<close>

definition clearTimeout :: "nat \<Rightarrow> state \<Rightarrow> state" where
  "clearTimeout h s = s\<lparr>timeouts := filter (\<lambda>t. fst t \<noteq> h) (timeouts s)\<rparr>"

definition setTimeout :: "int \<Rightarrow> state \<Rightarrow> nat \<times> state" where
  "setTimeout due s =
     (nextHandle s, s\<lparr>timeouts := timeouts s @ [(nextHandle s, due)], nextHandle := Suc (nextHandle s)\<rparr>)"

definition scheduleAutoSync :: "int \<Rightarrow> state \<Rightarrow> state" where
  "scheduleAutoSync now s =
     (let s1 = (case autoSyncTimer s of None \<Rightarrow> s | Some h \<Rightarrow> clearTimeout h s);
          (h, s2) = setTimeout (now + autoSyncDebounceMs) s1
      in s2\<lparr>autoSyncTimer := Some h\<rparr>)"

subsection \<open>Loan ledger\<close>

definition borrowBook :: "string \<Rightarrow> int \<Rightarrow> state \<Rightarrow> error + state" where
  "borrowBook code now s =
     (case currentUser s of
        None \<Rightarrow> Inl NotLoggedIn
      | Some u \<Rightarrow>
          if role u = ''guest'' \<and> \<not> guestBorrow (settings s) then Inl GuestCannotBorrow
          else
            (case find (\<lambda>b. book_id b = code) (books s) of
               None \<Rightarrow> Inl BookNotFound
             | Some bk \<Rightarrow>
                 if availableCopies bk \<le> 0 then Inl NoCopiesAvailable
                 else
                   (case find (\<lambda>b. bookId b = code \<and> userId b = username u \<and> returnedAt b = None)
                           (borrowedBooks s) of
                      Some existingBorrow \<Rightarrow> Inl AlreadyBorrowed
                    | None \<Rightarrow>
                        (let borrowRecord =
                               \<lparr>loan_id = now, bookId = code, bookTitle = title bk,
                                userId = username u, borrowDate = now,
                                dueDate = now + loanDays (settings s) * 24 * 60 * 60 * 1000,
                                returnedAt = None\<rparr>
                         in Inr (scheduleAutoSync now
                              (s\<lparr>borrowedBooks := borrowedBooks s @ [borrowRecord],
                                 books := update_first (\<lambda>b. book_id b = code)
                                            (\<lambda>b. b\<lparr>availableCopies := availableCopies b - 1\<rparr>)
                                            (books s)\<rparr>))))))"

definition returnBook :: "int \<Rightarrow> int \<Rightarrow> state \<Rightarrow> error + state" where
  "returnBook borrowId now s =
     (case find (\<lambda>b. loan_id b = borrowId) (borrowedBooks s) of
        None \<Rightarrow> Inl LoanNotFound
      | Some borrowRecord \<Rightarrow>
          if returnedAt borrowRecord \<noteq> None then Inl AlreadyReturned
          else
            Inr (scheduleAutoSync now
              (s\<lparr>borrowedBooks := update_first (\<lambda>b. loan_id b = borrowId)
                                     (\<lambda>b. b\<lparr>returnedAt := Some now\<rparr>) (borrowedBooks s),
                 books := update_first (\<lambda>b. book_id b = bookId borrowRecord)
                            (\<lambda>b. b\<lparr>availableCopies := availableCopies b + 1\<rparr>) (books s)\<rparr>)))"

subsection \<open>Catalogue store\<close>

text \<open>The arguments are the values of the form fields, as typed.\<close>

definition handleAddBook :: "string \<Rightarrow> string \<Rightarrow> string \<Rightarrow> string \<Rightarrow> int \<Rightarrow> state \<Rightarrow> error + state" where
  "handleAddBook idField titleField yearField copiesField now s =
     (let i = trim idField;
          t = trim titleField;
          y = or_default (parseInt yearField) (defaultYear (settings s));
          c = or_default (parseInt copiesField) (defaultCopies (settings s))
      in if \<not> valid_code i then Inl BadCodeFormat
         else if find (\<lambda>b. book_id b = i) (books s) \<noteq> None then Inl DuplicateCode
         else if t = [] then Inl MissingTitle
         else
           Inr (scheduleAutoSync now
             (s\<lparr>books := books s @
                  [\<lparr>book_id = i, bookIds = None, title = t, genre = getGenreFromId i,
                    year = y, copies = c, availableCopies = c\<rparr>]\<rparr>)))"

definition handleEditBook :: "string \<Rightarrow> string \<Rightarrow> string \<Rightarrow> string \<Rightarrow> state \<Rightarrow> error + state" where
  "handleEditBook originalIdField titleField yearField copiesField s =
     (if \<not> isAdminUser s then Inl AdminOnly
      else
        (let originalId = trim originalIdField;
             t = trim titleField;
             y = or_default (parseInt yearField) (defaultYear (settings s));
             newCopies = or_default (parseInt copiesField) 1
         in if originalId = [] then Inl MissingCode
            else if t = [] then Inl MissingTitle
            else if find (\<lambda>b. book_id b = originalId) (books s) = None then Inl BookNotFound
            else
              (let n = borrowedCount (borrowedBooks s) originalId
               in if newCopies < int n then Inl (CopiesBelowBorrowed n)
                  else
                    Inr (s\<lparr>books := update_first (\<lambda>b. book_id b = originalId)
                           (\<lambda>b. b\<lparr>title := t, year := y, copies := newCopies,
                                  availableCopies := newCopies - int n,
                                  bookIds := (case bookIds b of
                                                None \<Rightarrow> None
                                              | Some ids \<Rightarrow>
                                                  if book_id b \<in> set ids then Some ids
                                                  else Some (book_id b # ids))\<rparr>)
                           (books s)\<rparr>))))"

text \<open>The second argument is the answer to the confirm dialog.\<close>

definition deleteBook :: "string \<Rightarrow> bool \<Rightarrow> state \<Rightarrow> error + state" where
  "deleteBook code confirmed s =
     (if \<not> isAdminUser s then Inl AdminOnly
      else if find (\<lambda>b. book_id b = code) (books s) = None then Inl BookNotFound
      else if borrowedCount (borrowedBooks s) code > 0 then Inl HasOpenLoans
      else if \<not> confirmed then Inl Cancelled
      else Inr (s\<lparr>books := filter (\<lambda>b. book_id b \<noteq> code) (books s)\<rparr>))"

subsection \<open>CSV import\<close>

text \<open>
  The error strings collected by the imports, with the line number they print.
\<close>

datatype import_error =
    CodeFormatError nat string | DuplicateCodeError nat string | MissingTitleError nat

text \<open>
  A JavaScript \<open>Map\<close> keeps its keys in insertion order: \<open>set\<close> on a new key appends,
  and a change to the value of an existing key leaves its position.
\<close>

fun map_set :: "'k \<Rightarrow> 'v \<Rightarrow> ('k \<times> 'v) list \<Rightarrow> ('k \<times> 'v) list" where
  "map_set k v [] = [(k, v)]"
| "map_set k v (e # al) = (if fst e = k then (k, v) # al else e # map_set k v al)"

text \<open>The three counters both imports keep, and what each of them builds.\<close>

record counters =
  successCount :: nat
  errorCount :: nat
  errors :: "import_error list"

record csv_acc = counters +
  bookMap :: "(string \<times> book) list"

record import_acc = counters +
  newBooks :: "book list"

definition empty_acc :: csv_acc where
  "empty_acc = \<lparr>successCount = 0, errorCount = 0, errors = [], bookMap = []\<rparr>"

text \<open>
  \<open>bookIds.includes(id)\<close> and \<open>bookIds.push(id)\<close> on a record of \<open>bookMap\<close>. Every record
  there was built by the loop itself, with an array; the \<open>None\<close> branches are never taken.
\<close>

definition includes_id :: "book \<Rightarrow> string \<Rightarrow> bool" where
  "includes_id b i = (case bookIds b of None \<Rightarrow> False | Some ids \<Rightarrow> i \<in> set ids)"

definition push_id :: "book \<Rightarrow> string \<Rightarrow> book" where
  "push_id b i = b\<lparr>bookIds := (case bookIds b of None \<Rightarrow> None | Some ids \<Rightarrow> Some (ids @ [i]))\<rparr>"

text \<open>The body of the loop of \<open>processCSVData\<close>, for row \<open>i\<close> (from 0).\<close>

definition csv_row :: "settings \<Rightarrow> nat \<Rightarrow> string list \<Rightarrow> csv_acc \<Rightarrow> csv_acc" where
  "csv_row st i row acc =
     (case row of
        [] \<Rightarrow> acc
      | c0 # rest \<Rightarrow>
          if c0 = [] then acc
          else
            (let code = trim c0;
                 t = (case rest of [] \<Rightarrow> [] | c1 # _ \<Rightarrow> if c1 = [] then [] else trim c1)
             in if \<not> valid_code code then
                  acc\<lparr>errors := errors acc @ [CodeFormatError (i + 5) code],
                      errorCount := errorCount acc + 1\<rparr>
                else if t = [] then acc
                else if (case map_of (bookMap acc) t of
                           None \<Rightarrow> False
                         | Some existingBook \<Rightarrow> includes_id existingBook code) then
                  acc\<lparr>errors := errors acc @ [DuplicateCodeError (i + 5) code],
                      errorCount := errorCount acc + 1\<rparr>
                else
                  (let g = getGenreFromId code;
                       y = defaultYear st;
                       n = (1 :: int)
                   in (case map_of (bookMap acc) t of
                         Some existingBook \<Rightarrow>
                           acc\<lparr>bookMap := map_set t
                                   (push_id (existingBook\<lparr>copies := copies existingBook + n,
                                        availableCopies := availableCopies existingBook + n\<rparr>) code)
                                   (bookMap acc),
                               successCount := successCount acc + 1\<rparr>
                       | None \<Rightarrow>
                           acc\<lparr>bookMap := map_set t
                                   \<lparr>book_id = code, bookIds = Some [code], title = t, genre = g,
                                    year = y, copies = n, availableCopies = n\<rparr>
                                   (bookMap acc),
                               successCount := successCount acc + 1\<rparr>))))"

fun csv_rows :: "settings \<Rightarrow> nat \<Rightarrow> string list list \<Rightarrow> csv_acc \<Rightarrow> csv_acc" where
  "csv_rows st i [] acc = acc"
| "csv_rows st i (row # rows) acc = csv_rows st (Suc i) rows (csv_row st i row acc)"

text \<open>
  \<open>processCSVData\<close> empties \<open>this.books\<close>, runs the loop and pushes the values of
  \<open>bookMap\<close> in order. The ledger \<open>borrowedBooks\<close> is not touched.
\<close>

definition csv_result :: "settings \<Rightarrow> string list list \<Rightarrow> csv_acc" where
  "csv_result st csvData = csv_rows st 0 csvData empty_acc"

definition processCSVData :: "string list list \<Rightarrow> state \<Rightarrow> state" where
  "processCSVData csvData s = s\<lparr>books := map snd (bookMap (csv_result (settings s) csvData))\<rparr>"

subsection \<open>Spreadsheet import\<close>

text \<open>
  The body of the loop of \<open>processImportData\<close>, for row \<open>i\<close> (from 1: the first row is the
  header). \<open>newBooks\<close> is \<open>this.books\<close>, to which accepted rows are pushed. Cells are
  taken as text; an absent cell is the empty string.
\<close>

definition import_row :: "settings \<Rightarrow> nat \<Rightarrow> string list \<Rightarrow> import_acc \<Rightarrow> import_acc" where
  "import_row st i row acc =
     (case row of
        [] \<Rightarrow> acc
      | c0 # rest \<Rightarrow>
          if c0 = [] then acc
          else
            (let code = trim c0;
                 t = (case rest of [] \<Rightarrow> [] | c1 # _ \<Rightarrow> if c1 = [] then [] else trim c1);
                 n = (case drop 1 rest of
                        [] \<Rightarrow> Some (defaultCopies st)
                      | c2 # _ \<Rightarrow> if c2 = [] then Some (defaultCopies st) else parseInt c2)
             in if \<not> valid_code code then
                  acc\<lparr>errors := errors acc @ [CodeFormatError (i + 1) code],
                      errorCount := errorCount acc + 1\<rparr>
                else if find (\<lambda>b. book_id b = code) (newBooks acc) \<noteq> None then
                  acc\<lparr>errors := errors acc @ [DuplicateCodeError (i + 1) code],
                      errorCount := errorCount acc + 1\<rparr>
                else if t = [] then
                  acc\<lparr>errors := errors acc @ [MissingTitleError (i + 1)],
                      errorCount := errorCount acc + 1\<rparr>
                else
                  acc\<lparr>newBooks := newBooks acc @
                        [\<lparr>book_id = code, bookIds = None, title = t, genre = getGenreFromId code,
                          year = defaultYear st,
                          copies = or_default n (defaultCopies st),
                          availableCopies = or_default n (defaultCopies st)\<rparr>],
                      successCount := successCount acc + 1\<rparr>))"

fun import_rows :: "settings \<Rightarrow> nat \<Rightarrow> string list list \<Rightarrow> import_acc \<Rightarrow> import_acc" where
  "import_rows st i [] acc = acc"
| "import_rows st i (row # rows) acc = import_rows st (Suc i) rows (import_row st i row acc)"

definition import_result :: "string list list \<Rightarrow> state \<Rightarrow> import_acc" where
  "import_result data s =
     import_rows (settings s) 1 (drop 1 data)
       \<lparr>successCount = 0, errorCount = 0, errors = [], newBooks = books s\<rparr>"

definition processImportData :: "string list list \<Rightarrow> state \<Rightarrow> state" where
  "processImportData data s = s\<lparr>books := newBooks (import_result data s)\<rparr>"

subsection \<open>Sync coordinator\<close>

text \<open>
  What \<open>fetch\<close> and \<open>response.json()\<close> deliver: the request fails in transport
  (\<open>fetch\<close> rejects), or a response arrives with its \<open>ok\<close> flag (status 2xx) and its body,
  \<open>None\<close> when the body is not JSON (\<open>.catch(() => null)\<close>).
\<close>

datatype 'a response = NetworkError | Response bool "'a option"

definition getGoogleWebAppUrl :: "state \<Rightarrow> string option" where
  "getGoogleWebAppUrl s =
     (let url = trim (googleWebAppUrl (settings s)) in if url = [] then None else Some url)"

definition getGoogleWebAppUrlFromUI :: "string \<Rightarrow> state \<Rightarrow> string option \<times> state" where
  "getGoogleWebAppUrlFromUI urlInput s =
     (let url = trim urlInput
      in if url = [] then (None, s)
         else (Some url, s\<lparr>settings := (settings s)\<lparr>googleWebAppUrl := url\<rparr>\<rparr>))"

text \<open>
  How \<open>pushToGoogleSheets\<close> ends: it returns at once without a URL, returns after a
  response that is not 2xx, returns after a 2xx response (whose body says \<open>ok\<close> or not),
  or rethrows the error of a failed \<open>fetch\<close>. The body of a push response is modelled
  by the truth value of \<open>result.ok\<close>. The flag \<open>silent\<close> only selects the toasts.
\<close>

datatype push_outcome = PushNoUrl | PushNot2xx | PushDone | PushDoneBadShape | PushThrown

definition pushToGoogleSheets :: "bool \<Rightarrow> bool response \<Rightarrow> state \<Rightarrow> push_outcome \<times> state" where
  "pushToGoogleSheets silent resp s =
     (case getGoogleWebAppUrl s of
        None \<Rightarrow> (PushNoUrl, s)
      | Some url \<Rightarrow>
          (let s1 = s\<lparr>sent := sent s @ [PushRequest (books s) (borrowedBooks s) (boyouBooks s)]\<rparr>
           in case resp of
                NetworkError \<Rightarrow> (PushThrown, s1)
              | Response ok result \<Rightarrow>
                  if \<not> ok then (PushNot2xx, s1)
                  else if result = Some True then (PushDone, s1)
                  else (PushDoneBadShape, s1)))"

text \<open>
  \<open>autoPushToGoogleSheets\<close>: \<open>now\<close> is the clock at entry, \<open>later\<close> the clock in the
  \<open>catch\<close> block.
\<close>

definition autoPushToGoogleSheets :: "int \<Rightarrow> bool response \<Rightarrow> int \<Rightarrow> state \<Rightarrow> state" where
  "autoPushToGoogleSheets now resp later s =
     (case getGoogleWebAppUrl s of
        None \<Rightarrow> s
      | Some url \<Rightarrow>
          if now < autoSyncCooldownUntil s then s
          else if now - autoSyncLastRunAt s < autoSyncMinIntervalMs then s
          else
            (let s1 = s\<lparr>autoSyncLastRunAt := now\<rparr>;
                 (outcome, s2) = pushToGoogleSheets True resp s1
             in if outcome = PushThrown then s2\<lparr>autoSyncCooldownUntil := later + 60000\<rparr>
                else s2))"

text \<open>
  The callback armed by \<open>scheduleAutoSync\<close>, run by the browser for handle \<open>h\<close>: the
  timer leaves the queue, \<open>autoSyncTimer\<close> is reset and the automatic push runs.
  \<open>run_timeouts\<close> runs, in queue order, every pending callback that is due at \<open>now\<close>;
  \<open>resp\<close> gives the answer of the endpoint to the request of each.
\<close>

definition timeout_callback :: "nat \<Rightarrow> int \<Rightarrow> bool response \<Rightarrow> state \<Rightarrow> state" where
  "timeout_callback h now resp s =
     autoPushToGoogleSheets now resp now
       (s\<lparr>timeouts := filter (\<lambda>t. fst t \<noteq> h) (timeouts s), autoSyncTimer := None\<rparr>)"

definition run_timeouts :: "int \<Rightarrow> (nat \<Rightarrow> bool response) \<Rightarrow> state \<Rightarrow> state" where
  "run_timeouts now resp s =
     foldl (\<lambda>s' t. if snd t \<le> now then timeout_callback (fst t) now (resp (fst t)) s' else s')
       s (timeouts s)"

text \<open>The body of a pull response: \<open>result.ok\<close> and \<open>result.data\<close>, whose fields are
  present (as arrays, or as an object for \<open>boyouBooks\<close>) or not.\<close>

record pull_data =
  data_books :: "book list option"
  data_borrowedBooks :: "loan list option"
  data_boyouBooks :: "string option"

record pull_result =
  result_ok :: bool
  result_data :: "pull_data option"

record pull_options =
  silent :: bool
  protectEmpty :: bool
  closeModal :: bool

datatype pull_outcome =
    PullNoUrl | PullThrown | PullFailed | PullMalformed | PullProtected | PullCancelled | PullApplied

text \<open>
  \<open>pullFromGoogleSheets\<close>. \<open>urlInput\<close> is the URL field of the sync dialog (read when
  not silent), \<open>confirmed\<close> the answer to the confirm dialog, should it be shown.
\<close>

definition pullFromGoogleSheets ::
  "pull_options \<Rightarrow> string \<Rightarrow> pull_result response \<Rightarrow> bool \<Rightarrow> state \<Rightarrow> pull_outcome \<times> state" where
  "pullFromGoogleSheets opts urlInput resp confirmed s =
     (let (url, s0) = (if silent opts then (getGoogleWebAppUrl s, s)
                       else getGoogleWebAppUrlFromUI urlInput s)
      in case url of
           None \<Rightarrow> (PullNoUrl, s0)
         | Some u \<Rightarrow>
             (let s1 = s0\<lparr>sent := sent s0 @ [PullRequest]\<rparr>
              in case resp of
                   NetworkError \<Rightarrow> (PullThrown, s1)
                 | Response ok result \<Rightarrow>
                     (case result of
                        None \<Rightarrow> (PullFailed, s1)
                      | Some r \<Rightarrow>
                          if \<not> ok \<or> \<not> result_ok r then (PullFailed, s1)
                          else
                            (let d = (case result_data r of
                                        None \<Rightarrow> \<lparr>data_books = None, data_borrowedBooks = None,
                                                  data_boyouBooks = None\<rparr>
                                      | Some d \<Rightarrow> d)
                             in case (data_books d, data_borrowedBooks d) of
                                  (Some bs, Some ls) \<Rightarrow>
                                    if protectEmpty opts \<and> bs = [] \<and> books s1 \<noteq> [] then
                                      (PullProtected, s1)
                                    else if bs = [] \<and> books s1 \<noteq> [] \<and> \<not> confirmed then
                                      (PullCancelled, s1)
                                    else
                                      (PullApplied,
                                       s1\<lparr>books := bs, borrowedBooks := ls,
                                          boyouBooks := (case data_boyouBooks d of
                                                           None \<Rightarrow> boyouBooks s1
                                                         | Some j \<Rightarrow> j)\<rparr>)
                                | _ \<Rightarrow> (PullMalformed, s1)))))"

text \<open>
  The two automatic pulls, \<open>startAutoPull\<close> (at start-up; its body runs from a timeout
  of 0 ms) and \<open>autoUpdateBooks\<close> (on the update interval). Both pass
  \<open>{silent: true, protectEmpty: true, closeModal: false}\<close>; no other caller is silent.
\<close>

definition automatic :: pull_options where
  "automatic = \<lparr>silent = True, protectEmpty = True, closeModal = False\<rparr>"

definition startAutoPull :: "pull_result response \<Rightarrow> bool \<Rightarrow> state \<Rightarrow> state" where
  "startAutoPull resp confirmed s =
     (case getGoogleWebAppUrl s of
        None \<Rightarrow> s
      | Some url \<Rightarrow> snd (pullFromGoogleSheets automatic [] resp confirmed s))"

definition autoUpdateBooks :: "pull_result response \<Rightarrow> bool \<Rightarrow> state \<Rightarrow> state" where
  "autoUpdateBooks resp confirmed s = snd (pullFromGoogleSheets automatic [] resp confirmed s)"

subsection \<open>Sequences of local operations\<close>

datatype op =
    Login string string
  | Logout
  | Borrow string int
  | Return int int
  | AddBook string string string string int
  | EditBook string string string string
  | DeleteBook string bool
  | ImportCSV "string list list"

text \<open>A handler that shows an error toast returns without changing anything.\<close>

definition keep :: "state \<Rightarrow> error + state \<Rightarrow> state" where
  "keep s r = (case r of Inl e \<Rightarrow> s | Inr s' \<Rightarrow> s')"

fun apply_op :: "op \<Rightarrow> state \<Rightarrow> state" where
  "apply_op (Login name r) s = keep s (handleLogin name r s)"
| "apply_op Logout s = logout s"
| "apply_op (Borrow code now) s = keep s (borrowBook code now s)"
| "apply_op (Return borrowId now) s = keep s (returnBook borrowId now s)"
| "apply_op (AddBook i t y c now) s = keep s (handleAddBook i t y c now s)"
| "apply_op (EditBook i t y c) s = keep s (handleEditBook i t y c s)"
| "apply_op (DeleteBook code confirmed) s = keep s (deleteBook code confirmed s)"
| "apply_op (ImportCSV csvData) s = processCSVData csvData s"

fun exec :: "op list \<Rightarrow> state \<Rightarrow> state" where
  "exec [] s = s"
| "exec (x # xs) s = exec xs (apply_op x s)"

subsection \<open>Invariants\<close>

text \<open>
  The inventory invariant of one book record against the ledger: the available copies
  lie between 0 and the copies, and are the copies less the open loans of the record's id.
\<close>

definition book_ok :: "loan list \<Rightarrow> book \<Rightarrow> bool" where
  "book_ok ls b =
     (0 \<le> availableCopies b \<and> availableCopies b \<le> copies b \<and>
      availableCopies b = copies b - int (borrowedCount ls (book_id b)))"

text \<open>
  The invariant of the whole state: primary codes are pairwise distinct, every record
  satisfies \<open>book_ok\<close>, and every open loan is a loan of a record in the catalogue.
\<close>

definition state_inv :: "state \<Rightarrow> bool" where
  "state_inv s =
     (distinct (map book_id (books s)) \<and>
      list_all (book_ok (borrowedBooks s)) (books s) \<and>
      list_all (\<lambda>l. returnedAt l = None \<longrightarrow> bookId l \<in> set (map book_id (books s)))
        (borrowedBooks s))"

text \<open>
  The operations under which the invariant is kept: a new book is entered with a copies
  count that is not negative, and a CSV import runs while no loan is open and yields
  pairwise distinct primary codes. The other operations are not restricted.
\<close>

fun op_ok :: "state \<Rightarrow> op \<Rightarrow> bool" where
  "op_ok s (AddBook i t y c now) = (0 \<le> or_default (parseInt c) (defaultCopies (settings s)))"
| "op_ok s (ImportCSV csvData) =
     (list_all (\<lambda>l. returnedAt l \<noteq> None) (borrowedBooks s) \<and>
      distinct (map book_id (books (processCSVData csvData s))))"
| "op_ok s _ = True"

fun admissible :: "state \<Rightarrow> op list \<Rightarrow> bool" where
  "admissible s [] = True"
| "admissible s (x # xs) = (op_ok s x \<and> admissible (apply_op x s) xs)"

text \<open>
  The timer invariant: the only pending callback, if any, is the one whose handle
  \<open>autoSyncTimer\<close> holds.
\<close>

definition timer_inv :: "state \<Rightarrow> bool" where
  "timer_inv s = (map fst (timeouts s) = (case autoSyncTimer s of None \<Rightarrow> [] | Some h \<Rightarrow> [h]))"

text \<open>
  For the CSV import: the title cell of a row, trimmed, and the copies a title group
  holds in \<open>bookMap\<close> (none while the title is absent).
\<close>

definition row_title :: "string list \<Rightarrow> string" where
  "row_title row = (case row of c0 # c1 # _ \<Rightarrow> trim c1 | _ \<Rightarrow> [])"

definition group_copies :: "(string \<times> book) list \<Rightarrow> string \<Rightarrow> int" where
  "group_copies al t = (case map_of al t of None \<Rightarrow> 0 | Some b \<Rightarrow> copies b)"

text \<open>What every record built by the CSV import satisfies: nothing is lent yet.\<close>

definition csv_fresh :: "book \<Rightarrow> bool" where
  "csv_fresh b = (availableCopies b = copies b \<and> 0 < copies b)"

subsection \<open>Example states\<close>

text \<open>
  A catalogue of one title with two copies, with a student logged in, and the same
  catalogue with another sync URL configured.
\<close>

definition example_book :: book where
  "example_book =
     \<lparr>book_id = ''A0001'', bookIds = None, title = ''T'', genre = PictureBook, year = 2024,
      copies = 2, availableCopies = 2\<rparr>"

definition example_state :: state where
  "example_state =
     initial_state\<lparr>books := [example_book],
                   currentUser := Some \<lparr>username = ''alice'', role = ''student''\<rparr>\<rparr>"

definition synced_state :: state where
  "synced_state =
     example_state\<lparr>settings := initial_settings\<lparr>googleWebAppUrl := ''https://example.org/exec''\<rparr>\<rparr>"

section \<open>Properties\<close>

subsection \<open>Lists, maps and counters\<close>

lemma find_update_first:
  assumes "\<And>x. P (f x) = P x"
  shows "find P (update_first P f xs) = map_option f (find P xs)"
  using assms by (induction xs) auto




lemma find_Some_set: "find P xs = Some x \<Longrightarrow> x \<in> set xs \<and> P x"
  by (induction xs) (auto split: if_splits)

lemma update_first_map_id:
  assumes "\<And>x. g (f x) = g x"
  shows "map g (update_first P f xs) = map g xs"
  using assms by (induction xs) auto

lemma update_first_distinct:
  assumes "distinct (map book_id xs)"
  shows "update_first (\<lambda>b. book_id b = c) f xs = map (\<lambda>b. if book_id b = c then f b else b) xs"
  using assms
proof (induction xs)
  case Nil
  then show ?case by simp
next
  case (Cons x xs)
  show ?case
  proof (cases "book_id x = c")
    case True
    then have "\<forall>b \<in> set xs. book_id b \<noteq> c" using Cons.prems by (auto simp: image_iff)
    then have "map (\<lambda>b. if book_id b = c then f b else b) xs = xs"
      by (induction xs) auto
    with True show ?thesis by simp
  next
    case False
    then show ?thesis using Cons by simp
  qed
qed

lemma find_distinct_unique:
  assumes "distinct (map book_id xs)" "find (\<lambda>b. book_id b = c) xs = Some bk"
    "b \<in> set xs" "book_id b = c"
  shows "b = bk"
  using assms
proof (induction xs)
  case Nil
  then show ?case by simp
next
  case (Cons x xs)
  then show ?case by (auto split: if_splits)
qed

lemma list_all_update_first:
  assumes "list_all Q xs" "\<And>x. x \<in> set xs \<Longrightarrow> Q x \<Longrightarrow> Q (f x)"
  shows "list_all Q (update_first P f xs)"
  using assms by (induction xs) auto

lemma borrowedCount_append [simp]:
  "borrowedCount (ls @ [r]) code =
     borrowedCount ls code + (if bookId r = code \<and> returnedAt r = None then 1 else 0)"
  by (simp add: borrowedCount_def)

lemma borrowedCount_update_first:
  assumes "find P ls = Some r" "returnedAt r = None"
  shows "borrowedCount (update_first P (\<lambda>b. b\<lparr>returnedAt := Some t\<rparr>) ls) c +
           (if bookId r = c then 1 else 0) = borrowedCount ls c"
  using assms by (induction ls) (auto simp: borrowedCount_def split: if_splits)

lemma borrowedCount_pos:
  "r \<in> set ls \<Longrightarrow> returnedAt r = None \<Longrightarrow> 0 < borrowedCount ls (bookId r)"
  by (auto simp: borrowedCount_def filter_empty_conv)

lemma borrowedCount_zero:
  assumes "list_all (\<lambda>l. returnedAt l = None \<longrightarrow> bookId l \<in> A) ls" "c \<notin> A"
  shows "borrowedCount ls c = 0"
  using assms by (auto simp: borrowedCount_def list_all_iff filter_empty_conv)

lemma map_of_map_set: "map_of (map_set k v al) = (map_of al)(k \<mapsto> v)"
  by (induction al) auto

lemma snd_set_map_set: "snd ` set (map_set k v al) \<subseteq> insert v (snd ` set al)"
  by (induction al) auto

lemma trim_Nil [simp]: "trim [] = []"
  by (simp add: trim_def)

lemma in_map_set_cases:
  "(a, b) \<in> set (map_set k v al) \<Longrightarrow> b = v \<or> (a, b) \<in> set al"
  by (induction al) (auto split: if_splits)

subsection \<open>What a successful operation has done\<close>

lemma scheduleAutoSync_fields [simp]:
  "books (scheduleAutoSync now s) = books s"
  "borrowedBooks (scheduleAutoSync now s) = borrowedBooks s"
  "currentUser (scheduleAutoSync now s) = currentUser s"
  "settings (scheduleAutoSync now s) = settings s"
  "sent (scheduleAutoSync now s) = sent s"
  by (simp_all add: scheduleAutoSync_def setTimeout_def clearTimeout_def Let_def split: option.split)

lemma borrowBook_InrD:
  assumes "borrowBook code now s = Inr s1"
  shows "\<exists>u bk. currentUser s = Some u \<and> find (\<lambda>b. book_id b = code) (books s) = Some bk \<and>
           0 < availableCopies bk \<and>
           borrowedBooks s1 = borrowedBooks s @
             [\<lparr>loan_id = now, bookId = code, bookTitle = title bk, userId = username u,
               borrowDate = now, dueDate = now + loanDays (settings s) * 24 * 60 * 60 * 1000,
               returnedAt = None\<rparr>] \<and>
           books s1 = update_first (\<lambda>b. book_id b = code)
                        (\<lambda>b. b\<lparr>availableCopies := availableCopies b - 1\<rparr>) (books s)"
  using assms
  by (auto simp: borrowBook_def Let_def split: option.splits if_splits)

lemma returnBook_InrD:
  assumes "returnBook borrowId now s = Inr s1"
  shows "\<exists>r. find (\<lambda>b. loan_id b = borrowId) (borrowedBooks s) = Some r \<and> returnedAt r = None \<and>
           borrowedBooks s1 = update_first (\<lambda>b. loan_id b = borrowId)
                                (\<lambda>b. b\<lparr>returnedAt := Some now\<rparr>) (borrowedBooks s) \<and>
           books s1 = update_first (\<lambda>b. book_id b = bookId r)
                        (\<lambda>b. b\<lparr>availableCopies := availableCopies b + 1\<rparr>) (books s)"
  using assms
  by (auto simp: returnBook_def split: option.splits if_splits)

lemma handleAddBook_InrD:
  assumes "handleAddBook i t y c now s = Inr s1"
  shows "find (\<lambda>b. book_id b = trim i) (books s) = None \<and>
         borrowedBooks s1 = borrowedBooks s \<and>
         books s1 = books s @
           [\<lparr>book_id = trim i, bookIds = None, title = trim t, genre = getGenreFromId (trim i),
             year = or_default (parseInt y) (defaultYear (settings s)),
             copies = or_default (parseInt c) (defaultCopies (settings s)),
             availableCopies = or_default (parseInt c) (defaultCopies (settings s))\<rparr>]"
  using assms
  by (auto simp: handleAddBook_def Let_def split: if_splits)

lemma handleEditBook_InrD:
  assumes "handleEditBook i t y c s = Inr s1"
  shows "\<exists>f n. borrowedBooks s1 = borrowedBooks s \<and>
         books s1 = update_first (\<lambda>b. book_id b = trim i) f (books s) \<and>
         int (borrowedCount (borrowedBooks s) (trim i)) \<le> n \<and>
         (\<forall>b. book_id (f b) = book_id b \<and> copies (f b) = n \<and>
              availableCopies (f b) = n - int (borrowedCount (borrowedBooks s) (trim i)))"
proof -
  let ?n = "or_default (parseInt c) 1"
  let ?f = "\<lambda>b. b\<lparr>title := trim t, year := or_default (parseInt y) (defaultYear (settings s)),
                    copies := ?n,
                    availableCopies := ?n - int (borrowedCount (borrowedBooks s) (trim i)),
                    bookIds := (case bookIds b of
                                  None \<Rightarrow> None
                                | Some ids \<Rightarrow>
                                    if book_id b \<in> set ids then Some ids
                                    else Some (book_id b # ids))\<rparr>"
  have "borrowedBooks s1 = borrowedBooks s \<and>
         books s1 = update_first (\<lambda>b. book_id b = trim i) ?f (books s) \<and>
         int (borrowedCount (borrowedBooks s) (trim i)) \<le> ?n"
    using assms by (auto simp: handleEditBook_def Let_def split: if_splits)
  then show ?thesis
    by (intro exI [of _ ?f] exI [of _ ?n]) simp
qed

lemma deleteBook_InrD:
  assumes "deleteBook code confirmed s = Inr s1"
  shows "borrowedCount (borrowedBooks s) code = 0 \<and> borrowedBooks s1 = borrowedBooks s \<and>
         books s1 = filter (\<lambda>b. book_id b \<noteq> code) (books s)"
  using assms by (auto simp: deleteBook_def split: if_splits)

subsection \<open>Each operation keeps the invariant\<close>

lemma state_inv_borrow:
  assumes inv: "state_inv s" and b: "borrowBook code now s = Inr s1"
  shows "state_inv s1"
proof -
  from borrowBook_InrD [OF b] obtain u :: user and bk :: book where
    bk: "find (\<lambda>b. book_id b = code) (books s) = Some bk"
    and pos: "0 < availableCopies bk"
    and l1: "borrowedBooks s1 = borrowedBooks s @
             [\<lparr>loan_id = now, bookId = code, bookTitle = title bk, userId = username u,
               borrowDate = now, dueDate = now + loanDays (settings s) * 24 * 60 * 60 * 1000,
               returnedAt = None\<rparr>]"
    and b1: "books s1 = update_first (\<lambda>b. book_id b = code)
                        (\<lambda>b. b\<lparr>availableCopies := availableCopies b - 1\<rparr>) (books s)"
    by blast
  have d: "distinct (map book_id (books s))" using inv by (simp add: state_inv_def)
  have ids: "map book_id (books s1) = map book_id (books s)"
    unfolding b1 by (rule update_first_map_id) simp
  have bk_in: "bk \<in> set (books s)" "book_id bk = code"
    using find_Some_set [OF bk] by auto
  have ok: "list_all (book_ok (borrowedBooks s1)) (books s1)"
    unfolding b1 update_first_distinct [OF d] list_all_iff
  proof
    fix x assume "x \<in> set (map (\<lambda>b. if book_id b = code then b\<lparr>availableCopies := availableCopies b - 1\<rparr> else b) (books s))"
    then obtain b where bin: "b \<in> set (books s)"
      and x: "x = (if book_id b = code then b\<lparr>availableCopies := availableCopies b - 1\<rparr> else b)"
      by auto
    have okb: "book_ok (borrowedBooks s) b"
      using inv bin by (simp add: state_inv_def list_all_iff)
    show "book_ok (borrowedBooks s1) x"
    proof (cases "book_id b = code")
      case True
      then have "b = bk" using find_distinct_unique [OF d bk bin] by simp
      then show ?thesis using okb pos True x l1 by (simp add: book_ok_def)
    next
      case False
      then show ?thesis using okb x l1 by (simp add: book_ok_def)
    qed
  qed
  have refs: "list_all (\<lambda>l. returnedAt l = None \<longrightarrow> bookId l \<in> set (map book_id (books s1)))
        (borrowedBooks s1)"
    using inv bk_in unfolding ids l1 by (auto simp: state_inv_def list_all_iff)
  show ?thesis
    using d ok refs unfolding state_inv_def ids by simp
qed

lemma state_inv_return:
  assumes inv: "state_inv s" and b: "returnBook borrowId now s = Inr s1"
  shows "state_inv s1"
proof -
  from returnBook_InrD [OF b] obtain r :: loan where
    r: "find (\<lambda>b. loan_id b = borrowId) (borrowedBooks s) = Some r"
    and op: "returnedAt r = None"
    and l1: "borrowedBooks s1 = update_first (\<lambda>b. loan_id b = borrowId)
                                (\<lambda>b. b\<lparr>returnedAt := Some now\<rparr>) (borrowedBooks s)"
    and b1: "books s1 = update_first (\<lambda>b. book_id b = bookId r)
                        (\<lambda>b. b\<lparr>availableCopies := availableCopies b + 1\<rparr>) (books s)"
    by blast
  have d: "distinct (map book_id (books s))" using inv by (simp add: state_inv_def)
  have ids: "map book_id (books s1) = map book_id (books s)"
    unfolding b1 by (rule update_first_map_id) simp
  have cnt: "\<And>c. borrowedCount (borrowedBooks s1) c + (if bookId r = c then 1 else 0)
               = borrowedCount (borrowedBooks s) c"
    unfolding l1 by (rule borrowedCount_update_first [OF r op])
  have pos: "0 < borrowedCount (borrowedBooks s) (bookId r)"
    using find_Some_set [OF r] op by (simp add: borrowedCount_pos)
  have ok: "list_all (book_ok (borrowedBooks s1)) (books s1)"
    unfolding b1 update_first_distinct [OF d] list_all_iff
  proof
    fix x assume "x \<in> set (map (\<lambda>b. if book_id b = bookId r then b\<lparr>availableCopies := availableCopies b + 1\<rparr> else b) (books s))"
    then obtain b where bin: "b \<in> set (books s)"
      and x: "x = (if book_id b = bookId r then b\<lparr>availableCopies := availableCopies b + 1\<rparr> else b)"
      by auto
    have okb: "book_ok (borrowedBooks s) b"
      using inv bin by (simp add: state_inv_def list_all_iff)
    show "book_ok (borrowedBooks s1) x"
    proof (cases "book_id b = bookId r")
      case True
      then show ?thesis using okb pos x cnt [of "bookId r"] by (simp add: book_ok_def)
    next
      case False
      then show ?thesis using okb x cnt [of "book_id b"] by (simp add: book_ok_def)
    qed
  qed
  have "list_all (\<lambda>l. returnedAt l = None \<longrightarrow> bookId l \<in> set (map book_id (books s)))
        (borrowedBooks s)"
    using inv by (simp add: state_inv_def)
  then have refs: "list_all (\<lambda>l. returnedAt l = None \<longrightarrow> bookId l \<in> set (map book_id (books s1)))
        (borrowedBooks s1)"
    unfolding ids l1 by (rule list_all_update_first) simp
  show ?thesis
    using d ok refs unfolding state_inv_def ids by simp
qed

lemma state_inv_add:
  assumes inv: "state_inv s" and b: "handleAddBook i t y c now s = Inr s1"
    and nonneg: "0 \<le> or_default (parseInt c) (defaultCopies (settings s))"
  shows "state_inv s1"
proof -
  from handleAddBook_InrD [OF b] have
    new: "find (\<lambda>b. book_id b = trim i) (books s) = None"
    and l1: "borrowedBooks s1 = borrowedBooks s"
    and b1: "books s1 = books s @
           [\<lparr>book_id = trim i, bookIds = None, title = trim t, genre = getGenreFromId (trim i),
             year = or_default (parseInt y) (defaultYear (settings s)),
             copies = or_default (parseInt c) (defaultCopies (settings s)),
             availableCopies = or_default (parseInt c) (defaultCopies (settings s))\<rparr>]"
    by auto
  have fresh: "trim i \<notin> set (map book_id (books s))"
    using new by (auto simp: find_None_iff)
  have refs0: "list_all (\<lambda>l. returnedAt l = None \<longrightarrow> bookId l \<in> set (map book_id (books s)))
        (borrowedBooks s)"
    using inv by (simp add: state_inv_def)
  have zero: "borrowedCount (borrowedBooks s) (trim i) = 0"
    by (rule borrowedCount_zero [OF refs0 fresh])
  show ?thesis
    using inv fresh zero nonneg refs0 unfolding state_inv_def l1 b1
    by (auto simp: book_ok_def list_all_iff)
qed

lemma state_inv_edit:
  assumes inv: "state_inv s" and b: "handleEditBook i t y c s = Inr s1"
  shows "state_inv s1"
proof -
  from handleEditBook_InrD [OF b] obtain f :: "book \<Rightarrow> book" and n :: int where
    l1: "borrowedBooks s1 = borrowedBooks s"
    and b1: "books s1 = update_first (\<lambda>b. book_id b = trim i) f (books s)"
    and le: "int (borrowedCount (borrowedBooks s) (trim i)) \<le> n"
    and f: "\<And>b. book_id (f b) = book_id b" "\<And>b. copies (f b) = n"
      "\<And>b. availableCopies (f b) = n - int (borrowedCount (borrowedBooks s) (trim i))"
    by blast
  have d: "distinct (map book_id (books s))" using inv by (simp add: state_inv_def)
  have ids: "map book_id (books s1) = map book_id (books s)"
    unfolding b1 by (rule update_first_map_id) (simp add: f)
  have ok: "list_all (book_ok (borrowedBooks s1)) (books s1)"
    using inv le unfolding l1 b1 update_first_distinct [OF d] state_inv_def
    by (auto simp: list_all_iff book_ok_def f)
  show ?thesis
    using inv ok unfolding state_inv_def ids l1 by simp
qed

lemma state_inv_delete:
  assumes inv: "state_inv s" and b: "deleteBook code confirmed s = Inr s1"
  shows "state_inv s1"
proof -
  from deleteBook_InrD [OF b] have
    zero: "borrowedCount (borrowedBooks s) code = 0"
    and l1: "borrowedBooks s1 = borrowedBooks s"
    and b1: "books s1 = filter (\<lambda>b. book_id b \<noteq> code) (books s)"
    by auto
  have nocode: "\<forall>l \<in> set (borrowedBooks s). returnedAt l = None \<longrightarrow> bookId l \<noteq> code"
    using zero by (auto simp: borrowedCount_def filter_empty_conv)
  have refs: "list_all (\<lambda>l. returnedAt l = None \<longrightarrow>
                 bookId l \<in> set (map book_id (filter (\<lambda>b. book_id b \<noteq> code) (books s))))
        (borrowedBooks s)"
    unfolding list_all_iff
  proof (intro ballI impI)
    fix l assume l: "l \<in> set (borrowedBooks s)" "returnedAt l = None"
    then have "bookId l \<in> set (map book_id (books s))"
      using inv by (auto simp: state_inv_def list_all_iff)
    then obtain b where "b \<in> set (books s)" "book_id b = bookId l" by auto
    moreover have "bookId l \<noteq> code" using nocode l by blast
    ultimately show "bookId l \<in> set (map book_id (filter (\<lambda>b. book_id b \<noteq> code) (books s)))"
      by force
  qed
  have "distinct (map book_id (filter (\<lambda>b. book_id b \<noteq> code) (books s)))"
    using inv by (simp add: state_inv_def distinct_map_filter)
  moreover have "list_all (book_ok (borrowedBooks s)) (filter (\<lambda>b. book_id b \<noteq> code) (books s))"
    using inv by (simp add: state_inv_def list_all_iff)
  ultimately show ?thesis
    using refs unfolding state_inv_def l1 b1 by simp
qed

lemma csv_row_fresh:
  assumes "\<forall>b \<in> snd ` set (bookMap acc). csv_fresh b"
  shows "\<forall>b \<in> snd ` set (bookMap (csv_row st i row acc)). csv_fresh b"
proof -
  have old: "\<And>a b. (a, b) \<in> set (bookMap acc) \<Longrightarrow> availableCopies b = copies b \<and> 0 < copies b"
    using assms by (force simp: csv_fresh_def)
  have ex: "\<And>t b. map_of (bookMap acc) t = Some b \<Longrightarrow> availableCopies b = copies b \<and> 0 < copies b"
    using old by (blast dest: map_of_SomeD)
  show ?thesis
    unfolding csv_row_def Let_def csv_fresh_def
    by (auto split: list.split option.split dest!: in_map_set_cases dest: old ex
             simp: push_id_def)
qed

lemma csv_rows_fresh:
  assumes "\<forall>b \<in> snd ` set (bookMap acc). csv_fresh b"
  shows "\<forall>b \<in> snd ` set (bookMap (csv_rows st i rows acc)). csv_fresh b"
  using assms
proof (induction rows arbitrary: i acc)
  case Nil
  then show ?case by simp
next
  case (Cons row rows)
  show ?case
    unfolding csv_rows.simps
    by (rule Cons.IH) (rule csv_row_fresh [OF Cons.prems])
qed

lemma processCSVData_fresh:
  "b \<in> set (books (processCSVData csvData s)) \<Longrightarrow> csv_fresh b"
  using csv_rows_fresh [of empty_acc "settings s" 0 csvData]
  by (auto simp: processCSVData_def csv_result_def empty_acc_def)

lemma state_inv_csv:
  assumes closed: "list_all (\<lambda>l. returnedAt l \<noteq> None) (borrowedBooks s)"
    and d: "distinct (map book_id (books (processCSVData csvData s)))"
  shows "state_inv (processCSVData csvData s)"
proof -
  have l1: "borrowedBooks (processCSVData csvData s) = borrowedBooks s"
    by (simp add: processCSVData_def)
  have zero: "\<And>c. borrowedCount (borrowedBooks s) c = 0"
    using closed by (auto simp: borrowedCount_def list_all_iff filter_empty_conv)
  have ok: "list_all (book_ok (borrowedBooks s)) (books (processCSVData csvData s))"
    unfolding list_all_iff
  proof
    fix b assume "b \<in> set (books (processCSVData csvData s))"
    then have "csv_fresh b" by (rule processCSVData_fresh)
    then show "book_ok (borrowedBooks s) b"
      by (simp add: book_ok_def zero csv_fresh_def)
  qed
  have refs: "list_all (\<lambda>l. returnedAt l = None \<longrightarrow>
                bookId l \<in> set (map book_id (books (processCSVData csvData s)))) (borrowedBooks s)"
    using closed by (auto simp: list_all_iff)
  show ?thesis
    using d ok refs unfolding state_inv_def l1 by simp
qed

lemma state_inv_apply_op:
  assumes "state_inv s" "op_ok s x"
  shows "state_inv (apply_op x s)"
proof (cases x)
  case (Login name r)
  then show ?thesis using assms
    by (auto simp: keep_def handleLogin_def state_inv_def)
next
  case Logout
  then show ?thesis using assms by (simp add: logout_def state_inv_def)
next
  case (Borrow code now)
  then show ?thesis using assms state_inv_borrow [of s code now]
    by (auto simp: keep_def split: sum.split)
next
  case (Return borrowId now)
  then show ?thesis using assms state_inv_return [of s borrowId now]
    by (auto simp: keep_def split: sum.split)
next
  case (AddBook i t y c now)
  then show ?thesis using assms state_inv_add [of s i t y c now]
    by (auto simp: keep_def split: sum.split)
next
  case (EditBook i t y c)
  then show ?thesis using assms state_inv_edit [of s i t y c]
    by (auto simp: keep_def split: sum.split)
next
  case (DeleteBook code confirmed)
  then show ?thesis using assms state_inv_delete [of s code confirmed]
    by (auto simp: keep_def split: sum.split)
next
  case (ImportCSV csvData)
  then show ?thesis using assms state_inv_csv [of s csvData] by simp
qed

lemma state_inv_exec:
  "state_inv s \<Longrightarrow> admissible s ops \<Longrightarrow> state_inv (exec ops s)"
  by (induction ops arbitrary: s) (auto intro: state_inv_apply_op)

lemma state_inv_initial: "state_inv initial_state"
  by (simp add: state_inv_def initial_state_def)

subsection \<open>Timers, pushes and pulls\<close>

lemma scheduleAutoSync_timer:
  assumes "timer_inv s"
  shows "timeouts (scheduleAutoSync now s) = [(nextHandle s, now + autoSyncDebounceMs)] \<and>
         autoSyncTimer (scheduleAutoSync now s) = Some (nextHandle s)"
proof (cases "autoSyncTimer s")
  case None
  then have "timeouts s = []" using assms by (simp add: timer_inv_def)
  then show ?thesis using None
    by (simp add: scheduleAutoSync_def setTimeout_def Let_def)
next
  case (Some h)
  then have "map fst (timeouts s) = [h]" using assms by (simp add: timer_inv_def)
  then have "filter (\<lambda>t. fst t \<noteq> h) (timeouts s) = []"
    by (cases "timeouts s") auto
  then show ?thesis using Some
    by (simp add: scheduleAutoSync_def setTimeout_def clearTimeout_def Let_def)
qed

lemma timer_inv_scheduleAutoSync:
  "timer_inv s \<Longrightarrow> timer_inv (scheduleAutoSync now s)"
  using scheduleAutoSync_timer [of s now] by (simp add: timer_inv_def)

lemma timer_inv_initial: "timer_inv initial_state"
  by (simp add: timer_inv_def initial_state_def)

lemma pushToGoogleSheets_sent:
  "length (sent (snd (pushToGoogleSheets sil resp s))) \<le> length (sent s) + 1"
  by (simp add: pushToGoogleSheets_def Let_def split: option.split response.split)

lemma autoPushToGoogleSheets_sent:
  "length (sent (autoPushToGoogleSheets now resp later s)) \<le> length (sent s) + 1"
  using pushToGoogleSheets_sent [of True resp "s\<lparr>autoSyncLastRunAt := now\<rparr>"]
  by (auto simp: autoPushToGoogleSheets_def Let_def split: option.split prod.split)

lemma timeout_callback_sent:
  "length (sent (timeout_callback h now resp s)) \<le> length (sent s) + 1"
  using autoPushToGoogleSheets_sent
    [of now resp now "s\<lparr>timeouts := filter (\<lambda>t. fst t \<noteq> h) (timeouts s), autoSyncTimer := None\<rparr>"]
  by (simp add: timeout_callback_def)

lemma run_timeouts_single:
  assumes "timeouts s = [(h, due)]"
  shows "run_timeouts now resp s = (if due \<le> now then timeout_callback h now (resp h) s else s)"
  using assms by (simp add: run_timeouts_def)

lemma scheduleAutoSync_sync_fields:
  "autoSyncLastRunAt (scheduleAutoSync now s) = autoSyncLastRunAt s"
  "autoSyncCooldownUntil (scheduleAutoSync now s) = autoSyncCooldownUntil s"
  "boyouBooks (scheduleAutoSync now s) = boyouBooks s"
  "getGoogleWebAppUrl (scheduleAutoSync now s) = getGoogleWebAppUrl s"
  by (simp_all add: scheduleAutoSync_def setTimeout_def clearTimeout_def getGoogleWebAppUrl_def
        Let_def split: option.split)

lemma autoPush_sends_request:
  assumes "getGoogleWebAppUrl s \<noteq> None" "\<not> now < autoSyncCooldownUntil s"
    "\<not> now - autoSyncLastRunAt s < autoSyncMinIntervalMs"
  shows "sent (autoPushToGoogleSheets now resp later s) =
           sent s @ [PushRequest (books s) (borrowedBooks s) (boyouBooks s)]"
  using assms
  by (cases resp)
     (auto simp: autoPushToGoogleSheets_def pushToGoogleSheets_def getGoogleWebAppUrl_def Let_def)

lemma timeout_callback_single:
  assumes "timeouts s = [(h, due)]"
  shows "timeout_callback h now resp s =
           autoPushToGoogleSheets now resp now (s\<lparr>timeouts := [], autoSyncTimer := None\<rparr>)"
  using assms by (simp add: timeout_callback_def)

lemma pullFromGoogleSheets_protected:
  assumes "protectEmpty opts" and "silent opts" and "books s \<noteq> []"
    and "data_books d = Some []" and "data_borrowedBooks d = Some ls"
  shows "books (snd (pullFromGoogleSheets opts urlInput
            (Response True (Some \<lparr>result_ok = True, result_data = Some d\<rparr>)) confirmed s)) = books s \<and>
         borrowedBooks (snd (pullFromGoogleSheets opts urlInput
            (Response True (Some \<lparr>result_ok = True, result_data = Some d\<rparr>)) confirmed s)) =
           borrowedBooks s"
  using assms
  by (simp add: pullFromGoogleSheets_def Let_def split: option.split)

lemma autoPush_transport_failure:
  assumes "getGoogleWebAppUrl s \<noteq> None" "\<not> now < autoSyncCooldownUntil s"
    "\<not> now - autoSyncLastRunAt s < autoSyncMinIntervalMs"
  shows "autoSyncCooldownUntil (autoPushToGoogleSheets now NetworkError later s) = later + 60000"
  using assms
  by (auto simp: autoPushToGoogleSheets_def pushToGoogleSheets_def getGoogleWebAppUrl_def Let_def)

lemma autoPush_skipped_in_cooldown:
  assumes "now < autoSyncCooldownUntil s"
  shows "autoPushToGoogleSheets now resp later s = s"
  using assms by (simp add: autoPushToGoogleSheets_def split: option.split)

lemma autoPush_not2xx:
  assumes "getGoogleWebAppUrl s \<noteq> None" "\<not> now < autoSyncCooldownUntil s"
    "\<not> now - autoSyncLastRunAt s < autoSyncMinIntervalMs"
  shows "autoSyncCooldownUntil (autoPushToGoogleSheets now (Response False body) later s) =
           autoSyncCooldownUntil s \<and>
         length (sent (autoPushToGoogleSheets now (Response False body) later s)) = length (sent s) + 1"
  using assms
  by (auto simp: autoPushToGoogleSheets_def pushToGoogleSheets_def getGoogleWebAppUrl_def Let_def)

lemma import_row_rejects_primary_code:
  assumes "c0 \<noteq> []" and "find (\<lambda>b. book_id b = trim c0) (newBooks acc) \<noteq> None"
  shows "newBooks (import_row st i (c0 # rest) acc) = newBooks acc \<and>
         errorCount (import_row st i (c0 # rest) acc) = errorCount acc + 1 \<and>
         length (errors (import_row st i (c0 # rest) acc)) = length (errors acc) + 1"
  using assms by (simp add: import_row_def Let_def)

subsection \<open>The inventory invariant\<close>

text \<open>
  C1 (amended). From a state that satisfies the invariant (such as the state the
  constructor builds), along every sequence of logins, logouts, borrows, returns, book
  edits, book deletions, additions of a book whose entered copies count is not negative,
  and CSV imports that run while no loan is open and yield pairwise distinct primary
  codes, every book record has \<open>0 \<le> availableCopies \<le> copies\<close>, and its
  \<open>availableCopies\<close> is its \<open>copies\<close> less the number of open loans of its id.
\<close>

theorem inventory_invariant:
  assumes "state_inv s" and "admissible s ops" and "b \<in> set (books (exec ops s))"
  shows "0 \<le> availableCopies b \<and> availableCopies b \<le> copies b \<and>
         availableCopies b = copies b - int (borrowedCount (borrowedBooks (exec ops s)) (book_id b))"
proof -
  have "state_inv (exec ops s)" using assms(1,2) by (rule state_inv_exec)
  then have "book_ok (borrowedBooks (exec ops s)) b"
    using assms(3) by (simp add: state_inv_def list_all_iff)
  then show ?thesis by (simp add: book_ok_def)
qed

theorem inventory_invariant_witness:
  "state_inv initial_state \<and>
   admissible initial_state
     [Login ''alice'' ''student'', AddBook ''A0001'' ''T'' ''2024'' ''2'' 1000,
      Borrow ''A0001'' 2000] \<and>
   \<lparr>book_id = ''A0001'', bookIds = None, title = ''T'', genre = PictureBook, year = 2024,
     copies = 2, availableCopies = 1\<rparr>
     \<in> set (books (exec [Login ''alice'' ''student'', AddBook ''A0001'' ''T'' ''2024'' ''2'' 1000,
                          Borrow ''A0001'' 2000] initial_state)) \<and>
   borrowedCount (borrowedBooks (exec [Login ''alice'' ''student'',
        AddBook ''A0001'' ''T'' ''2024'' ''2'' 1000, Borrow ''A0001'' 2000] initial_state)) ''A0001'' = 1"
proof -
  let ?ops = "[Login ''alice'' ''student'', AddBook ''A0001'' ''T'' ''2024'' ''2'' 1000,
      Borrow ''A0001'' 2000]"
  let ?b = "\<lparr>book_id = ''A0001'', bookIds = None, title = ''T'', genre = PictureBook,
     year = 2024, copies = 2, availableCopies = 1\<rparr>"
  have h1: "state_inv initial_state" by code_simp
  have h2: "admissible initial_state ?ops" by code_simp
  have h3: "?b \<in> set (books (exec ?ops initial_state))" by code_simp
  from inventory_invariant [OF h1 h2 h3] h1 h2 h3 show ?thesis by simp
qed

text \<open>
  The claim as stated fails for the CSV import: it rebuilds the catalogue with every copy
  available and leaves the ledger alone. After one borrow of the only copy of A0001 and a
  CSV import of that title, the record has 1 copy, 1 available, and 1 open loan.
\<close>

theorem inventory_invariant_counterexample:
  "books (exec [Login ''alice'' ''student'', AddBook ''A0001'' ''T'' ''2024'' ''1'' 1000,
                Borrow ''A0001'' 2000, ImportCSV [[''A0001'', ''T'']]] initial_state) =
     [\<lparr>book_id = ''A0001'', bookIds = Some [''A0001''], title = ''T'', genre = PictureBook,
       year = 2024, copies = 1, availableCopies = 1\<rparr>] \<and>
   borrowedCount (borrowedBooks (exec [Login ''alice'' ''student'',
        AddBook ''A0001'' ''T'' ''2024'' ''1'' 1000, Borrow ''A0001'' 2000,
        ImportCSV [[''A0001'', ''T'']]] initial_state)) ''A0001'' = 1"
  by code_simp

subsection \<open>Code validation\<close>

text \<open>
  C7 (amended). Code validation is case-sensitive: a code is valid iff it is one of the
  capital letters A, B, C followed by one or more decimal digits. A lower-case prefix is
  not accepted.
\<close>

theorem valid_code_iff:
  "valid_code c \<longleftrightarrow>
     (\<exists>l ds. c = l # ds \<and> (l = CHR ''A'' \<or> l = CHR ''B'' \<or> l = CHR ''C'') \<and> ds \<noteq> []
        \<and> (\<forall>d \<in> set ds. d \<in> set ''0123456789''))"
  by (cases c) (auto simp: is_digit_def list_all_iff)

theorem valid_code_iff_witness:
  "valid_code ''A0001'' \<and>
     (\<exists>l ds. ''A0001'' = l # ds \<and> (l = CHR ''A'' \<or> l = CHR ''B'' \<or> l = CHR ''C'') \<and> ds \<noteq> []
        \<and> (\<forall>d \<in> set ds. d \<in> set ''0123456789''))"
  using valid_code_iff [of "''A0001''"] by (simp add: is_digit_def)

text \<open>The claim as stated fails: the lower-case code a0001 is rejected.\<close>

theorem valid_code_lowercase_counterexample:
  "\<not> valid_code ''a0001''"
  by simp

subsection \<open>Borrowing\<close>

text \<open>
  C2 (amended). For a logged-in user who may borrow and a code found in the catalogue,
  \<open>borrowBook\<close> checks availability first and the user's open loan second: it fails with
  \<open>NoCopiesAvailable\<close> when the book's \<open>availableCopies\<close> is 0 or less; it fails with
  \<open>AlreadyBorrowed\<close> when a copy is available and the user has an open loan of the code;
  otherwise it succeeds, appends exactly one open loan record of that user and code, and
  decrements the \<open>availableCopies\<close> of that book by exactly 1. A failing call yields no new
  state: no loan record is created and the catalogue is as before.
\<close>

theorem borrowBook_outcomes:
  assumes u: "currentUser s = Some u"
    and allowed: "role u \<noteq> ''guest'' \<or> guestBorrow (settings s)"
    and bk: "find (\<lambda>b. book_id b = code) (books s) = Some bk"
  shows "(availableCopies bk \<le> 0 \<longrightarrow> borrowBook code now s = Inl NoCopiesAvailable) \<and>
    (0 < availableCopies bk \<and>
       (\<exists>l \<in> set (borrowedBooks s). bookId l = code \<and> userId l = username u \<and> returnedAt l = None)
       \<longrightarrow> borrowBook code now s = Inl AlreadyBorrowed) \<and>
    (0 < availableCopies bk \<and>
       \<not> (\<exists>l \<in> set (borrowedBooks s). bookId l = code \<and> userId l = username u \<and> returnedAt l = None)
       \<longrightarrow> (\<exists>s' r. borrowBook code now s = Inr s' \<and>
              borrowedBooks s' = borrowedBooks s @ [r] \<and>
              bookId r = code \<and> userId r = username u \<and> returnedAt r = None \<and>
              borrowedCount (borrowedBooks s') code = borrowedCount (borrowedBooks s) code + 1 \<and>
              books s' = update_first (\<lambda>b. book_id b = code)
                           (\<lambda>b. b\<lparr>availableCopies := availableCopies b - 1\<rparr>) (books s) \<and>
              find (\<lambda>b. book_id b = code) (books s') =
                Some (bk\<lparr>availableCopies := availableCopies bk - 1\<rparr>)))"
proof (intro conjI impI)
  assume "availableCopies bk \<le> 0"
  then show "borrowBook code now s = Inl NoCopiesAvailable"
    using u allowed bk by (auto simp: borrowBook_def)
next
  assume h: "0 < availableCopies bk \<and>
       (\<exists>l \<in> set (borrowedBooks s). bookId l = code \<and> userId l = username u \<and> returnedAt l = None)"
  then have "find (\<lambda>b. bookId b = code \<and> userId b = username u \<and> returnedAt b = None)
               (borrowedBooks s) \<noteq> None"
    by (auto simp: find_None_iff)
  then show "borrowBook code now s = Inl AlreadyBorrowed"
    using u allowed bk h by (auto simp: borrowBook_def)
next
  assume h: "0 < availableCopies bk \<and>
       \<not> (\<exists>l \<in> set (borrowedBooks s). bookId l = code \<and> userId l = username u \<and> returnedAt l = None)"
  then have none: "find (\<lambda>b. bookId b = code \<and> userId b = username u \<and> returnedAt b = None)
               (borrowedBooks s) = None"
    by (auto simp: find_None_iff)
  have fnd: "find (\<lambda>b. book_id b = code)
          (update_first (\<lambda>b. book_id b = code)
             (\<lambda>b. b\<lparr>availableCopies := availableCopies b - 1\<rparr>) (books s)) =
        Some (bk\<lparr>availableCopies := availableCopies bk - 1\<rparr>)"
    by (simp add: find_update_first bk)
  show "\<exists>s' r. borrowBook code now s = Inr s' \<and>
              borrowedBooks s' = borrowedBooks s @ [r] \<and>
              bookId r = code \<and> userId r = username u \<and> returnedAt r = None \<and>
              borrowedCount (borrowedBooks s') code = borrowedCount (borrowedBooks s) code + 1 \<and>
              books s' = update_first (\<lambda>b. book_id b = code)
                           (\<lambda>b. b\<lparr>availableCopies := availableCopies b - 1\<rparr>) (books s) \<and>
              find (\<lambda>b. book_id b = code) (books s') =
                Some (bk\<lparr>availableCopies := availableCopies bk - 1\<rparr>)"
    using u allowed bk h none fnd by (auto simp: borrowBook_def Let_def)
qed

theorem borrowBook_outcomes_witness:
  "(\<exists>s' r. borrowBook ''A0001'' 1000 example_state = Inr s' \<and>
      borrowedBooks s' = borrowedBooks example_state @ [r] \<and> returnedAt r = None \<and>
      find (\<lambda>b. book_id b = ''A0001'') (books s') = Some (example_book\<lparr>availableCopies := 1\<rparr>)) \<and>
   borrowBook ''A0001'' 1500 (apply_op (Borrow ''A0001'' 1000) example_state) = Inl AlreadyBorrowed \<and>
   borrowBook ''A0001'' 3000
     (exec [Borrow ''A0001'' 1000, Login ''bob'' ''student'', Borrow ''A0001'' 2000,
            Login ''carol'' ''student''] example_state) = Inl NoCopiesAvailable"
proof -
  let ?alice = "\<lparr>username = ''alice'', role = ''student''\<rparr>"
  let ?carol = "\<lparr>username = ''carol'', role = ''student''\<rparr>"
  let ?s1 = "apply_op (Borrow ''A0001'' 1000) example_state"
  let ?s2 = "exec [Borrow ''A0001'' 1000, Login ''bob'' ''student'', Borrow ''A0001'' 2000,
            Login ''carol'' ''student''] example_state"
  have a1: "currentUser example_state = Some ?alice" by code_simp
  have a2: "role ?alice \<noteq> ''guest'' \<or> guestBorrow (settings example_state)" by code_simp
  have a3: "find (\<lambda>b. book_id b = ''A0001'') (books example_state) = Some example_book"
    by code_simp
  have a4: "0 < availableCopies example_book \<and>
     \<not> (\<exists>l \<in> set (borrowedBooks example_state).
          bookId l = ''A0001'' \<and> userId l = username ?alice \<and> returnedAt l = None)"
    by code_simp
  have b1: "currentUser ?s1 = Some ?alice" by code_simp
  have b2: "role ?alice \<noteq> ''guest'' \<or> guestBorrow (settings ?s1)" by code_simp
  have b3: "find (\<lambda>b. book_id b = ''A0001'') (books ?s1) = Some (example_book\<lparr>availableCopies := 1\<rparr>)"
    by code_simp
  have b4: "0 < availableCopies (example_book\<lparr>availableCopies := 1\<rparr>) \<and>
     (\<exists>l \<in> set (borrowedBooks ?s1).
          bookId l = ''A0001'' \<and> userId l = username ?alice \<and> returnedAt l = None)"
    by code_simp
  have c1: "currentUser ?s2 = Some ?carol" by code_simp
  have c2: "role ?carol \<noteq> ''guest'' \<or> guestBorrow (settings ?s2)" by code_simp
  have c3: "find (\<lambda>b. book_id b = ''A0001'') (books ?s2) = Some (example_book\<lparr>availableCopies := 0\<rparr>)"
    by code_simp
  have c4: "availableCopies (example_book\<lparr>availableCopies := 0\<rparr>) \<le> 0" by simp
  have e: "example_book\<lparr>availableCopies := availableCopies example_book - 1\<rparr>
             = example_book\<lparr>availableCopies := 1\<rparr>"
    by (simp add: example_book_def)
  from borrowBook_outcomes [OF a1 a2 a3, of 1000] a4
       borrowBook_outcomes [OF b1 b2 b3, of 1500] b4
       borrowBook_outcomes [OF c1 c2 c3, of 3000] c4
  show ?thesis unfolding e by blast
qed

text \<open>
  The claim as stated fails where both conditions hold: alice holds the only copy of
  A0001, so an open loan of hers exists, and her second borrow fails with
  \<open>NoCopiesAvailable\<close>, not with \<open>AlreadyBorrowed\<close>.
\<close>

theorem borrowBook_already_borrowed_counterexample:
  "find (\<lambda>b. bookId b = ''A0001'' \<and> userId b = ''alice'' \<and> returnedAt b = None)
     (borrowedBooks (exec [Login ''alice'' ''student'', AddBook ''A0001'' ''T'' ''2024'' ''1'' 1000,
                           Borrow ''A0001'' 2000] initial_state)) \<noteq> None \<and>
   borrowBook ''A0001'' 3000
     (exec [Login ''alice'' ''student'', AddBook ''A0001'' ''T'' ''2024'' ''1'' 1000,
            Borrow ''A0001'' 2000] initial_state) = Inl NoCopiesAvailable"
  by code_simp

subsection \<open>Borrow and return\<close>




subsection \<open>CSV import\<close>

text \<open>
  C5. A CSV import of exactly two rows with the codes A0001 and A0002 and the same
  non-empty title (after trimming) leaves a catalogue of exactly one record: its id is
  A0001, its \<open>bookIds\<close> are A0001 and A0002 in this order, and its \<open>copies\<close> and
  \<open>availableCopies\<close> are both 2.
\<close>

theorem import_merge_two_rows:
  assumes "trim t1 = trim t2" "trim t1 \<noteq> []"
  shows "books (processCSVData [''A0001'' # t1 # r1, ''A0002'' # t2 # r2] s) =
           [\<lparr>book_id = ''A0001'', bookIds = Some [''A0001'', ''A0002''], title = trim t1,
             genre = PictureBook, year = defaultYear (settings s), copies = 2,
             availableCopies = 2\<rparr>]"
proof -
  have v: "trim ''A0001'' = ''A0001''" "trim ''A0002'' = ''A0002''"
    by (simp_all add: trim_def is_space_def)
  have g: "getGenreFromId ''A0001'' = PictureBook"
    by (simp add: getGenreFromId_def toUpperCase_def)
  have ne: "t1 \<noteq> []" "t2 \<noteq> []" using assms by auto
  show ?thesis
    using assms ne
    by (simp add: processCSVData_def csv_result_def empty_acc_def csv_row_def v g is_digit_def
        includes_id_def push_id_def Let_def)
qed

theorem import_merge_two_rows_witness:
  "trim ''T'' = trim ''T'' \<and> trim ''T'' \<noteq> [] \<and>
   books (processCSVData [[''A0001'', ''T''], [''A0002'', ''T'']] initial_state) =
     [\<lparr>book_id = ''A0001'', bookIds = Some [''A0001'', ''A0002''], title = ''T'',
       genre = PictureBook, year = 2024, copies = 2, availableCopies = 2\<rparr>]"
proof -
  have t: "trim ''T'' = ''T''" by (simp add: trim_def is_space_def)
  have h: "trim ''T'' \<noteq> []" by (simp add: t)
  from import_merge_two_rows [OF refl h, of "[]" "[]" initial_state] show ?thesis
    by (simp add: t initial_state_def initial_settings_def)
qed

text \<open>
  C8 (amended). In the CSV import the copies of a row are the constant 1, whatever the
  setting \<open>defaultCopies\<close> is: a row either is not imported and leaves \<open>bookMap\<close> as it
  was, or is imported and raises the copies of its own title group by exactly 1 and
  those of no other.
\<close>

theorem csv_row_copies_increment:
  "(successCount (csv_row st i row acc) = successCount acc \<and>
      bookMap (csv_row st i row acc) = bookMap acc) \<or>
   (successCount (csv_row st i row acc) = successCount acc + 1 \<and>
      (\<forall>t. group_copies (bookMap (csv_row st i row acc)) t =
             group_copies (bookMap acc) t + (if t = row_title row then 1 else 0)))"
  unfolding csv_row_def Let_def row_title_def group_copies_def
  by (auto split: list.split option.split simp: map_of_map_set push_id_def)

theorem csv_row_copies_increment_witness:
  "successCount (csv_row (initial_settings\<lparr>defaultCopies := 3\<rparr>) 0 [''A0001'', ''T''] empty_acc) = 1 \<and>
   group_copies (bookMap (csv_row (initial_settings\<lparr>defaultCopies := 3\<rparr>) 0 [''A0001'', ''T''] empty_acc)) ''T'' = 1"
proof -
  let ?acc = "csv_row (initial_settings\<lparr>defaultCopies := 3\<rparr>) 0 [''A0001'', ''T''] empty_acc"
  have h1: "successCount ?acc = 1"
    by code_simp
  have h2: "successCount empty_acc = 0" and h3: "group_copies (bookMap empty_acc) ''T'' = 0"
    and h4: "row_title [''A0001'', ''T''] = ''T''"
    by code_simp+
  have "successCount ?acc \<noteq> successCount empty_acc"
    unfolding h1 h2 by simp
  with csv_row_copies_increment [of "initial_settings\<lparr>defaultCopies := 3\<rparr>" 0 "[''A0001'', ''T'']" empty_acc]
  have "\<forall>t. group_copies (bookMap ?acc) t =
             group_copies (bookMap empty_acc) t + (if t = row_title [''A0001'', ''T''] then 1 else 0)"
    by blast
  then have "group_copies (bookMap ?acc) ''T'' =
             group_copies (bookMap empty_acc) ''T'' + (if ''T'' = row_title [''A0001'', ''T''] then 1 else 0)"
    by (rule spec)
  then have "group_copies (bookMap ?acc) ''T'' = 1"
    unfolding h3 h4 by simp
  with h1 show ?thesis by blast
qed

text \<open>
  The claim as stated fails: with \<open>defaultCopies\<close> set to 3, an imported row still
  counts one copy.
\<close>

theorem csv_copies_default_counterexample:
  "defaultCopies (settings (initial_state\<lparr>settings := initial_settings\<lparr>defaultCopies := 3\<rparr>\<rparr>)) = 3 \<and>
   books (processCSVData [[''A0001'', ''T'']]
            (initial_state\<lparr>settings := initial_settings\<lparr>defaultCopies := 3\<rparr>\<rparr>)) =
     [\<lparr>book_id = ''A0001'', bookIds = Some [''A0001''], title = ''T'', genre = PictureBook,
       year = 2024, copies = 1, availableCopies = 1\<rparr>]"
  by code_simp

subsection \<open>Spreadsheet import\<close>

text \<open>
  C6 (the code departs from the claim). The duplicate check of \<open>processImportData\<close>
  compares the code of a row with the \<open>id\<close> of every record, and not with the entries of
  \<open>bookIds\<close>. The catalogue built by a CSV import of A0001 and A0002 under one title
  holds A0002 in \<open>bookIds\<close> only; a spreadsheet row with the code A0002 is then accepted:
  no error is recorded and a second record, with the id A0002, is added.
\<close>

theorem import_duplicate_in_bookIds:
  "books (processCSVData [[''A0001'', ''T''], [''A0002'', ''T'']] initial_state) =
     [\<lparr>book_id = ''A0001'', bookIds = Some [''A0001'', ''A0002''], title = ''T'',
       genre = PictureBook, year = 2024, copies = 2, availableCopies = 2\<rparr>] \<and>
   errorCount (import_result [[''code'', ''title''], [''A0002'', ''Other'']]
     (processCSVData [[''A0001'', ''T''], [''A0002'', ''T'']] initial_state)) = 0 \<and>
   errors (import_result [[''code'', ''title''], [''A0002'', ''Other'']]
     (processCSVData [[''A0001'', ''T''], [''A0002'', ''T'']] initial_state)) = [] \<and>
   books (processImportData [[''code'', ''title''], [''A0002'', ''Other'']]
     (processCSVData [[''A0001'', ''T''], [''A0002'', ''T'']] initial_state)) =
     [\<lparr>book_id = ''A0001'', bookIds = Some [''A0001'', ''A0002''], title = ''T'',
       genre = PictureBook, year = 2024, copies = 2, availableCopies = 2\<rparr>,
      \<lparr>book_id = ''A0002'', bookIds = None, title = ''Other'',
       genre = PictureBook, year = 2024, copies = 1, availableCopies = 1\<rparr>]"
  by code_simp

subsection \<open>Sync coordinator\<close>

text \<open>
  C4. An automatic pull, which runs with \<open>silent\<close> and \<open>protectEmpty\<close> both set (as
  \<open>startAutoPull\<close> and \<open>autoUpdateBooks\<close> do; no other caller is silent), leaves \<open>books\<close>
  and \<open>borrowedBooks\<close> unchanged when the response is well-formed, its \<open>books\<close> array is
  empty and the local catalogue is not empty.
\<close>

theorem pull_protect_empty:
  assumes "books s \<noteq> []" and "data_books d = Some []" and "data_borrowedBooks d = Some ls"
    and "resp = Response True (Some \<lparr>result_ok = True, result_data = Some d\<rparr>)"
  shows "(silent opts \<and> protectEmpty opts \<longrightarrow>
            books (snd (pullFromGoogleSheets opts urlInput resp confirmed s)) = books s \<and>
            borrowedBooks (snd (pullFromGoogleSheets opts urlInput resp confirmed s)) = borrowedBooks s) \<and>
         books (startAutoPull resp confirmed s) = books s \<and>
         borrowedBooks (startAutoPull resp confirmed s) = borrowedBooks s \<and>
         books (autoUpdateBooks resp confirmed s) = books s \<and>
         borrowedBooks (autoUpdateBooks resp confirmed s) = borrowedBooks s"
proof -
  have a: "protectEmpty automatic" "silent automatic" by (simp_all add: automatic_def)
  note auto_pull = pullFromGoogleSheets_protected [OF a assms(1,2,3), of "[]" confirmed]
  have "silent opts \<and> protectEmpty opts \<longrightarrow>
            books (snd (pullFromGoogleSheets opts urlInput resp confirmed s)) = books s \<and>
            borrowedBooks (snd (pullFromGoogleSheets opts urlInput resp confirmed s)) = borrowedBooks s"
    unfolding assms(4) using pullFromGoogleSheets_protected [OF _ _ assms(1,2,3)] by blast
  moreover have "books (autoUpdateBooks resp confirmed s) = books s \<and>
         borrowedBooks (autoUpdateBooks resp confirmed s) = borrowedBooks s"
    unfolding assms(4) autoUpdateBooks_def using auto_pull by simp
  moreover have "books (startAutoPull resp confirmed s) = books s \<and>
         borrowedBooks (startAutoPull resp confirmed s) = borrowedBooks s"
    unfolding assms(4) startAutoPull_def using auto_pull by (simp split: option.split)
  ultimately show ?thesis by blast
qed

theorem pull_protect_empty_witness:
  "books synced_state \<noteq> [] \<and>
   fst (pullFromGoogleSheets automatic []
      (Response True (Some \<lparr>result_ok = True, result_data =
          Some \<lparr>data_books = Some [], data_borrowedBooks = Some [], data_boyouBooks = None\<rparr>\<rparr>))
      True synced_state) = PullProtected \<and>
   books (snd (pullFromGoogleSheets automatic []
      (Response True (Some \<lparr>result_ok = True, result_data =
          Some \<lparr>data_books = Some [], data_borrowedBooks = Some [], data_boyouBooks = None\<rparr>\<rparr>))
      True synced_state)) = [example_book] \<and>
   books (autoUpdateBooks
      (Response True (Some \<lparr>result_ok = True, result_data =
          Some \<lparr>data_books = Some [], data_borrowedBooks = Some [], data_boyouBooks = None\<rparr>\<rparr>))
      True synced_state) = [example_book]"
proof -
  let ?d = "\<lparr>data_books = Some [], data_borrowedBooks = Some [], data_boyouBooks = None\<rparr>"
  have h1: "books synced_state \<noteq> []" by code_simp
  have h2: "data_books ?d = Some []" and h3: "data_borrowedBooks ?d = Some []" by simp_all
  have h4: "fst (pullFromGoogleSheets automatic []
      (Response True (Some \<lparr>result_ok = True, result_data = Some ?d\<rparr>)) True synced_state)
        = PullProtected"
    by code_simp
  have h5: "books synced_state = [example_book]" by code_simp
  have h6: "silent automatic \<and> protectEmpty automatic" by (simp add: automatic_def)
  from pull_protect_empty [OF h1 h2 h3 refl, of automatic "[]" True] h6
  have "books (snd (pullFromGoogleSheets automatic []
          (Response True (Some \<lparr>result_ok = True, result_data = Some ?d\<rparr>)) True synced_state))
          = books synced_state"
    and "books (autoUpdateBooks (Response True (Some \<lparr>result_ok = True, result_data = Some ?d\<rparr>))
          True synced_state) = books synced_state"
    by blast+
  then show ?thesis using h1 h4 unfolding h5 by simp
qed

text \<open>
  C9. From a state in which at most the callback held in \<open>autoSyncTimer\<close> is pending,
  three calls of \<open>scheduleAutoSync\<close> in a row (no callback runs in between: the calls fall
  within the debounce window) cancel the callbacks armed before and leave exactly one
  pending callback, the one armed by the last call and due one debounce delay after it;
  no request has been sent by then. When the browser runs the due callbacks before that
  delay is over, nothing happens; once it is over, the one callback runs
  \<open>autoPushToGoogleSheets\<close>, which sends exactly one push request, carrying the books and
  loans, when a sync URL is set, no cooldown is in force and the minimum interval has
  passed. In every case at most one request is sent.
\<close>

theorem debounce_burst:
  assumes "timer_inv s"
  shows "\<exists>h. timeouts (scheduleAutoSync t3 (scheduleAutoSync t2 (scheduleAutoSync t1 s))) =
               [(h, t3 + autoSyncDebounceMs)] \<and>
             autoSyncTimer (scheduleAutoSync t3 (scheduleAutoSync t2 (scheduleAutoSync t1 s))) = Some h \<and>
             sent (scheduleAutoSync t3 (scheduleAutoSync t2 (scheduleAutoSync t1 s))) = sent s \<and>
             (now < t3 + autoSyncDebounceMs \<longrightarrow>
                run_timeouts now resp (scheduleAutoSync t3 (scheduleAutoSync t2 (scheduleAutoSync t1 s)))
                  = scheduleAutoSync t3 (scheduleAutoSync t2 (scheduleAutoSync t1 s))) \<and>
             (t3 + autoSyncDebounceMs \<le> now \<longrightarrow>
                run_timeouts now resp (scheduleAutoSync t3 (scheduleAutoSync t2 (scheduleAutoSync t1 s)))
                  = autoPushToGoogleSheets now (resp h) now
                      ((scheduleAutoSync t3 (scheduleAutoSync t2 (scheduleAutoSync t1 s)))
                         \<lparr>timeouts := [], autoSyncTimer := None\<rparr>)) \<and>
             (t3 + autoSyncDebounceMs \<le> now \<and> getGoogleWebAppUrl s \<noteq> None \<and>
              \<not> now < autoSyncCooldownUntil s \<and>
              \<not> now - autoSyncLastRunAt s < autoSyncMinIntervalMs \<longrightarrow>
                sent (run_timeouts now resp
                        (scheduleAutoSync t3 (scheduleAutoSync t2 (scheduleAutoSync t1 s))))
                  = sent s @ [PushRequest (books s) (borrowedBooks s) (boyouBooks s)]) \<and>
             length (sent (run_timeouts now resp
                       (scheduleAutoSync t3 (scheduleAutoSync t2 (scheduleAutoSync t1 s)))))
               \<le> length (sent s) + 1"
proof -
  let ?s2 = "scheduleAutoSync t2 (scheduleAutoSync t1 s)"
  let ?s3 = "scheduleAutoSync t3 ?s2"
  let ?h = "nextHandle ?s2"
  let ?idle = "?s3\<lparr>timeouts := [], autoSyncTimer := None\<rparr>"
  have inv2: "timer_inv ?s2"
    using assms by (intro timer_inv_scheduleAutoSync)
  have q: "timeouts ?s3 = [(?h, t3 + autoSyncDebounceMs)]"
    and t: "autoSyncTimer ?s3 = Some ?h"
    using scheduleAutoSync_timer [OF inv2, of t3] by simp_all
  have r: "run_timeouts now resp ?s3 =
        (if t3 + autoSyncDebounceMs \<le> now
         then timeout_callback ?h now (resp ?h) ?s3 else ?s3)"
    by (rule run_timeouts_single [OF q])
  have cb: "timeout_callback ?h now (resp ?h) ?s3 = autoPushToGoogleSheets now (resp ?h) now ?idle"
    by (rule timeout_callback_single [OF q])
  have snt: "sent ?s3 = sent s" by simp
  have idle: "now < t3 + autoSyncDebounceMs \<longrightarrow> run_timeouts now resp ?s3 = ?s3"
    unfolding r by simp
  have fires: "t3 + autoSyncDebounceMs \<le> now \<longrightarrow>
        run_timeouts now resp ?s3 = autoPushToGoogleSheets now (resp ?h) now ?idle"
    unfolding r cb by simp
  have f: "getGoogleWebAppUrl ?idle = getGoogleWebAppUrl s"
    "autoSyncCooldownUntil ?idle = autoSyncCooldownUntil s"
    "autoSyncLastRunAt ?idle = autoSyncLastRunAt s"
    "sent ?idle = sent s" "books ?idle = books s" "borrowedBooks ?idle = borrowedBooks s"
    "boyouBooks ?idle = boyouBooks s"
    using scheduleAutoSync_sync_fields(4) [of t3 ?s2] scheduleAutoSync_sync_fields(4) [of t2 "scheduleAutoSync t1 s"]
      scheduleAutoSync_sync_fields(4) [of t1 s]
    by (simp_all add: scheduleAutoSync_sync_fields(1-3) getGoogleWebAppUrl_def)
  have one: "t3 + autoSyncDebounceMs \<le> now \<and> getGoogleWebAppUrl s \<noteq> None \<and>
              \<not> now < autoSyncCooldownUntil s \<and>
              \<not> now - autoSyncLastRunAt s < autoSyncMinIntervalMs \<longrightarrow>
        sent (run_timeouts now resp ?s3) =
          sent s @ [PushRequest (books s) (borrowedBooks s) (boyouBooks s)]"
  proof
    assume a: "t3 + autoSyncDebounceMs \<le> now \<and> getGoogleWebAppUrl s \<noteq> None \<and>
              \<not> now < autoSyncCooldownUntil s \<and>
              \<not> now - autoSyncLastRunAt s < autoSyncMinIntervalMs"
    then have "run_timeouts now resp ?s3 = autoPushToGoogleSheets now (resp ?h) now ?idle"
      using fires by blast
    moreover have "sent (autoPushToGoogleSheets now (resp ?h) now ?idle) =
        sent ?idle @ [PushRequest (books ?idle) (borrowedBooks ?idle) (boyouBooks ?idle)]"
      by (rule autoPush_sends_request) (use a in \<open>simp_all only: f not_False_eq_True\<close>)
    ultimately show "sent (run_timeouts now resp ?s3) =
          sent s @ [PushRequest (books s) (borrowedBooks s) (boyouBooks s)]"
      by (simp only: f)
  qed
  have le: "length (sent (run_timeouts now resp ?s3)) \<le> length (sent s) + 1"
    unfolding r using timeout_callback_sent [of ?h now "resp ?h" ?s3]
    by (simp add: snt del: scheduleAutoSync_fields)
  from q t snt idle fires one le show ?thesis by blast
qed

theorem debounce_burst_witness:
  "timer_inv initial_state \<and>
   timeouts (scheduleAutoSync 100400 (scheduleAutoSync 100200 (scheduleAutoSync 100000 initial_state))) =
     [(3, 101900)] \<and>
   run_timeouts 101000 (\<lambda>h. Response True (Some True))
        (scheduleAutoSync 100400 (scheduleAutoSync 100200 (scheduleAutoSync 100000 initial_state))) =
     scheduleAutoSync 100400 (scheduleAutoSync 100200 (scheduleAutoSync 100000 initial_state)) \<and>
   sent (run_timeouts 102000 (\<lambda>h. Response True (Some True))
        (scheduleAutoSync 100400 (scheduleAutoSync 100200 (scheduleAutoSync 100000 initial_state)))) =
     [PushRequest [] [] ''{}'']"
proof -
  let ?s3 = "scheduleAutoSync 100400 (scheduleAutoSync 100200 (scheduleAutoSync 100000 initial_state))"
  let ?resp = "\<lambda>h :: nat. Response True (Some True)"
  have h: "timer_inv initial_state" by (rule timer_inv_initial)
  have q: "timeouts ?s3 = [(3, 101900)]"
    by code_simp
  have early: "(101000 :: int) < 100400 + autoSyncDebounceMs"
    by (simp add: autoSyncDebounceMs_def)
  have due: "(100400 :: int) + autoSyncDebounceMs \<le> 102000 \<and>
      getGoogleWebAppUrl initial_state \<noteq> None \<and>
      \<not> 102000 < autoSyncCooldownUntil initial_state \<and>
      \<not> 102000 - autoSyncLastRunAt initial_state < autoSyncMinIntervalMs"
    by code_simp
  have e: "sent initial_state = []" "books initial_state = []" "borrowedBooks initial_state = []"
    "boyouBooks initial_state = ''{}''"
    by (simp_all add: initial_state_def)
  from debounce_burst [OF h, of 100400 100200 100000 101000 ?resp] early
  have a: "run_timeouts 101000 ?resp ?s3 = ?s3"
    by blast
  from debounce_burst [OF h, of 100400 100200 100000 102000 ?resp] due
  have "sent (run_timeouts 102000 ?resp ?s3) =
          sent initial_state @
            [PushRequest (books initial_state) (borrowedBooks initial_state) (boyouBooks initial_state)]"
    by blast
  then have b: "sent (run_timeouts 102000 ?resp ?s3) = [PushRequest [] [] ''{}'']"
    unfolding e by simp
  from h q a b show ?thesis by (intro conjI)
qed

text \<open>
  C10 (the code departs from the claim). With a sync URL configured and no cooldown in
  force, an automatic push that receives a response which is not 2xx leaves
  \<open>autoSyncCooldownUntil\<close> at 0: \<open>pushToGoogleSheets\<close> returns normally on such a
  response, and only a rejected \<open>fetch\<close> reaches the \<open>catch\<close> block that sets the
  cooldown. The next automatic push, 30 seconds later and so within the 60 seconds the
  cooldown would last, sends a second request.
\<close>

theorem autoPush_not2xx_no_cooldown:
  "autoSyncCooldownUntil (autoPushToGoogleSheets 100000 (Response False None) 100050 synced_state) = 0 \<and>
   length (sent (autoPushToGoogleSheets 100000 (Response False None) 100050 synced_state)) = 1 \<and>
   length (sent (autoPushToGoogleSheets 130000 (Response False None) 130050
             (autoPushToGoogleSheets 100000 (Response False None) 100050 synced_state))) = 2"
  by code_simp

end
